theory Spec2Isabelle
  imports Complex_Main "HOL-Library.AList"
begin

section \<open>Conventions of the embedding\<close>

text \<open>
  The program is Python 2 over numpy. A Python float is a \<^typ>\<open>real\<close>: arithmetic is exact,
  and an operation whose numpy result would be \<open>inf\<close> or \<open>nan\<close> (a division by zero) ends
  the computation with \<open>NotFinite\<close>. A one-dimensional numpy array is a \<^typ>\<open>real list\<close>. An
  exception is a value of \<open>error\<close>, and a function that can raise returns \<open>error + 'a\<close>
  with \<open>Inl\<close> for the exception.
\<close>

datatype error =
    KeyError string
  | IndexError
  | NameError string
  | AttributeError string
  | ValueError
  | IOError
  | PyException string
  | TypeError
  | NotFinite
  | DegenerateInputError

definition ebind :: "error + 'a \<Rightarrow> ('a \<Rightarrow> error + 'b) \<Rightarrow> error + 'b" where
  "ebind m k = (case m of Inl e \<Rightarrow> Inl e | Inr v \<Rightarrow> k v)"

fun emap :: "('a \<Rightarrow> error + 'b) \<Rightarrow> 'a list \<Rightarrow> error + 'b list" where
  "emap k [] = Inr []"
| "emap k (x # xs) = ebind (k x) (\<lambda>v. ebind (emap k xs) (\<lambda>vs. Inr (v # vs)))"

subsection \<open>numpy primitives\<close>

text \<open>Python indexing \<open>xs[i]\<close>: a negative index counts from the end.\<close>

definition py_index :: "'a list \<Rightarrow> int \<Rightarrow> error + 'a" where
  "py_index xs i =
     (if 0 \<le> i \<and> i < int (length xs) then Inr (xs ! nat i)
      else if - int (length xs) \<le> i \<and> i < 0 then Inr (xs ! nat (int (length xs) + i))
      else Inl IndexError)"

text \<open>Elementwise binary operation of two arrays, with numpy's broadcasting of an array of
  length one; other unequal lengths raise ValueError.\<close>

definition np_binop :: "(real \<Rightarrow> real \<Rightarrow> real) \<Rightarrow> real list \<Rightarrow> real list \<Rightarrow> error + real list" where
  "np_binop g xs ys =
     (if length xs = length ys then Inr (map2 g xs ys)
      else if length xs = 1 then Inr (map (g (hd xs)) ys)
      else if length ys = 1 then Inr (map (\<lambda>x. g x (hd ys)) xs)
      else Inl ValueError)"

definition np_mul :: "real list \<Rightarrow> real list \<Rightarrow> error + real list" where
  "np_mul = np_binop (*)"

definition np_add :: "real list \<Rightarrow> real list \<Rightarrow> error + real list" where
  "np_add = np_binop (+)"

definition np_sub :: "real list \<Rightarrow> real list \<Rightarrow> error + real list" where
  "np_sub = np_binop (-)"

definition np_div :: "real list \<Rightarrow> real list \<Rightarrow> error + real list" where
  "np_div xs ys = (if ys \<noteq> [] \<and> 0 \<in> set ys then Inl NotFinite else np_binop (/) xs ys)"

definition sdiv :: "real \<Rightarrow> real \<Rightarrow> error + real" where
  "sdiv a b = (if b = 0 then Inl NotFinite else Inr (a / b))"

text \<open>Boolean-mask indexing \<open>xs[inds]\<close>: the mask must be as long as the array.\<close>

definition np_mask :: "bool list \<Rightarrow> 'a list \<Rightarrow> error + 'a list" where
  "np_mask inds xs =
     (if length inds = length xs then Inr (map snd (filter fst (zip inds xs)))
      else Inl IndexError)"

text \<open>Integer-array indexing \<open>xs[pos]\<close>.\<close>

definition np_take :: "'a list \<Rightarrow> int list \<Rightarrow> error + 'a list" where
  "np_take xs pos = emap (py_index xs) pos"

text \<open>\<open>np.arange(start, stop, step)\<close> on floats: \<open>ceil((stop - start) / step)\<close> values.\<close>

definition arange :: "real \<Rightarrow> real \<Rightarrow> real \<Rightarrow> error + real list" where
  "arange start stop step =
     (if step = 0 then Inl ValueError
      else Inr (map (\<lambda>i. start + real i * step) [0..<nat \<lceil>(stop - start) / step\<rceil>]))"

text \<open>\<open>np.diff\<close> and \<open>scipy.integrate.trapz(y, x)\<close>, which is
  \<open>(diff(x) * (y[1:] + y[:-1]) / 2.0).sum()\<close>.\<close>

definition np_diff :: "real list \<Rightarrow> real list" where
  "np_diff x = map2 (\<lambda>a b. b - a) (butlast x) (tl x)"

definition trapz :: "real list \<Rightarrow> real list \<Rightarrow> error + real" where
  "trapz y x =
     ebind (np_mul (np_diff x) (map2 (+) (tl y) (butlast y)))
       (\<lambda>p. Inr (sum_list (map (\<lambda>t. t / 2) p)))"

section \<open>The helper modules that are not among the sources\<close>

text \<open>\<open>Utils.Misc\<close>, \<open>Utils.Series\<close> and \<open>Utils.Flux\<close> belong to the repository, but only
  their callers are among the sources. The functions the callers use are the fields of a
  record that every caller takes as its first argument \<open>U\<close>:
  \<^item> \<open>Fit_linear(y, x, err, b, m)\<close> returns the intercept, the slope and the chi-square (the
    first three entries of its result, inline or not); \<open>None\<close> stands for an argument left
    out;
  \<^item> \<open>Getaxispos_vector(xold, xnew)\<close> returns \<open>(weight, index)\<close>;
  \<^item> \<open>Mag_to_flux(mag, mag_err, flux0)\<close>, \<open>Flux_to_mag(flux, flux_err, flux0)\<close> and
    \<open>Asinh_to_flux(mag, mag_err, flux0, softening)\<close> return the converted values and
    errors.\<close>

type_synonym axispos = "real list \<Rightarrow> real list \<Rightarrow> error + (real list \<times> int list)"

type_synonym linfit =
  "real list \<Rightarrow> real list option \<Rightarrow> real list option \<Rightarrow> real option \<Rightarrow> real option
     \<Rightarrow> error + (real \<times> real \<times> real)"

record Utils =
  Fit_linear :: linfit
  Getaxispos_vector :: axispos
  Mag_to_flux :: "real list \<Rightarrow> real list option \<Rightarrow> real \<Rightarrow> error + (real list \<times> real list)"
  Flux_to_mag :: "real list \<Rightarrow> real list option \<Rightarrow> real \<Rightarrow> error + (real list \<times> real list)"
  Asinh_to_flux ::
    "real list \<Rightarrow> real list option \<Rightarrow> real \<Rightarrow> real \<Rightarrow> error + (real list \<times> real list)"

section \<open>Utils/Filter.py\<close>

text \<open>The linear interpolation both callers write: \<open>f[pos]*(1-weight) + f[pos+1]*weight\<close>.\<close>

definition interp_at :: "real list \<Rightarrow> real list \<Rightarrow> int list \<Rightarrow> error + real list" where
  "interp_at f weight pos =
     ebind (np_take f pos) (\<lambda>lo.
     ebind (np_mul lo (map (\<lambda>t. 1 - t) weight)) (\<lambda>a.
     ebind (np_take f (map (\<lambda>p. p + 1) pos)) (\<lambda>hi.
     ebind (np_mul hi weight) (\<lambda>b.
     np_add a b))))"

definition Resample_spectrum ::
  "'u Utils_scheme \<Rightarrow> real list \<Rightarrow> real list \<Rightarrow> real list option \<Rightarrow> real option
     \<Rightarrow> error + (real list \<times> real list)" where
  "Resample_spectrum U w f wrange resample =
     ebind
       (case wrange of
          None \<Rightarrow> Inr (w, f)
        | Some r \<Rightarrow>
            ebind (py_index r 0) (\<lambda>lo.
            ebind (py_index r 1) (\<lambda>hi.
              let inds = map (\<lambda>x. lo \<le> x \<and> x \<le> hi) w in
              ebind (np_mask inds w) (\<lambda>w'.
              ebind (np_mask inds f) (\<lambda>f'. Inr (w', f'))))))
       (\<lambda>(w, f).
          case resample of
            None \<Rightarrow> Inr (w, f)
          | Some step \<Rightarrow>
              ebind (py_index w 0) (\<lambda>w0.
              ebind (py_index w (- 1)) (\<lambda>wl.
              ebind (arange w0 (wl + step * (1 / 2)) step) (\<lambda>w_new.
              ebind (Getaxispos_vector U w w_new) (\<lambda>(weight, pos).
              ebind (interp_at f weight pos) (\<lambda>f_new. Inr (w_new, f_new)))))))"

text \<open>\<open>Band_integration(band_func, w, f, nu, AB)\<close>. The speed of light \<open>cts.c\<close> comes from
  \<open>import_modules\<close>, which is not among the sources; it is the parameter \<open>c\<close>. In the
  frequency branch the flag \<open>nu\<close> is rebound to the array \<open>w\<close>, so \<open>np.any(nu)\<close> holds when
  the flag was set and some frequency is not zero. The names \<open>wav\<close> and \<open>f_wav\<close> are bound
  only when the flag is not set.\<close>

definition np_any :: "bool \<Rightarrow> real list \<Rightarrow> bool" where
  "np_any nu w = (nu \<and> list_ex (\<lambda>x. x \<noteq> 0) w)"

definition Band_integration ::
  "real \<Rightarrow> (real \<Rightarrow> real) \<Rightarrow> real list \<Rightarrow> real list \<Rightarrow> bool \<Rightarrow> bool \<Rightarrow> error + real" where
  "Band_integration c band_func w f nu AB =
     (let f_band = map band_func w;
          wav = map (\<lambda>x. x * (1 / 10 ^ 10)) w;
          f_wav = map (\<lambda>x. x * 10 ^ 10) f
      in
      if AB then
        (if np_any nu w then
           ebind (np_mul f_band f) (\<lambda>a.
           ebind (np_div a w) (\<lambda>a'.
           ebind (trapz a' w) (\<lambda>num.
           ebind (np_div f_band w) (\<lambda>b.
           ebind (trapz b w) (\<lambda>den.
           sdiv num den)))))
         else if nu then Inl (NameError ''f_wav'')
         else
           ebind (np_mul f_band f_wav) (\<lambda>a.
           ebind (np_mul a wav) (\<lambda>a'.
           ebind (trapz a' wav) (\<lambda>num.
           ebind (np_div f_band wav) (\<lambda>b.
           ebind (trapz (map (\<lambda>t. t * c) b) wav) (\<lambda>den.
           sdiv num den))))))
      else
        ebind
          (if np_any nu w then
             ebind (np_mul f_band f) (\<lambda>a.
             ebind (np_div a w) (\<lambda>a'.
             ebind (trapz a' w) (\<lambda>num.
             ebind (np_div (map (\<lambda>t. t * c) f_band) (map (\<lambda>x. x ^ 3) w)) (\<lambda>b.
             ebind (trapz b w) (\<lambda>den.
             sdiv num den)))))
           else
             ebind (np_mul f_band f) (\<lambda>a.
             ebind (np_mul a w) (\<lambda>a'.
             ebind (trapz a' w) (\<lambda>num.
             ebind (np_mul f_band w) (\<lambda>b.
             ebind (trapz b w) (\<lambda>den.
             sdiv num den))))))
          (\<lambda>f_int. Inr (f_int * (1 / 10 ^ 10))))"

section \<open>Photometry/Photometry.py: the data and its collaborators\<close>

text \<open>An atmosphere grid (\<open>Atmosphere.AtmoGridPhot\<close>) is an external collaborator. The code reads
  \<open>meta['ext']\<close>, \<open>meta['zp']\<close> and \<open>flux0\<close> of it and hands the grid to the star; \<open>table\<close>
  stands for the rest of its content.\<close>

record AtmoGridPhot =
  meta_ext :: real
  meta_zp :: real
  flux0 :: real
  table :: nat

text \<open>The star (\<open>Core.Star\<close>) is an external collaborator with a mutable surface: the nine
  parameters of the last \<open>Make_surface\<close>.\<close>

record Star =
  ndiv :: int
  read_primitives :: bool
  surface :: "real list option"

text \<open>What the code calls outside the repository: the builtins \<open>open(...).readlines()\<close>,
  \<open>int\<close> and \<open>float\<close>, the numeric tables \<open>np.loadtxt\<close> reads (a table is its list of rows),
  \<open>AtmoGridPhot.ReadHDF5\<close> and the methods of the star.\<close>

record Env =
  readlines :: "string \<Rightarrow> error + string list"
  py_int :: "string \<Rightarrow> error + int"
  py_float :: "string \<Rightarrow> error + real"
  tables :: "string \<Rightarrow> error + real list list"
  ReadHDF5 :: "string \<Rightarrow> error + AtmoGridPhot"
  Star_init :: "int \<Rightarrow> bool \<Rightarrow> error + Star"
  Star_Make_surface :: "Star \<Rightarrow> real list \<Rightarrow> error + Star"
  Star_Mag_flux :: "Star \<Rightarrow> real \<Rightarrow> AtmoGridPhot \<Rightarrow> error + real"
  Star_Keff :: "Star \<Rightarrow> real \<Rightarrow> AtmoGridPhot \<Rightarrow> error + real"

text \<open>\<open>np.loadtxt(fln, usecols=cols, unpack=True)\<close>: one array per selected column.\<close>

definition loadtxt :: "'e Env_scheme \<Rightarrow> string \<Rightarrow> int list \<Rightarrow> error + real list list" where
  "loadtxt E fln usecols =
     ebind (tables E fln) (\<lambda>rows.
       if rows = [] then Inr []
       else emap (\<lambda>c. emap (\<lambda>row. py_index row c) rows) usecols)"

text \<open>\<open>self.data\<close> is a dictionary from a key to a Python list; an entry of such a list is an
  array, a float or a string. The dictionary is an association list with one pair for each
  key: \<open>map_of\<close> looks a key up and \<open>AList.update\<close> assigns to it.\<close>

datatype item = Arr "real list" | Flt real | Str string

type_synonym pydict = "(string \<times> item list) list"

definition dget :: "pydict \<Rightarrow> string \<Rightarrow> error + item list" where
  "dget d k = (case map_of d k of None \<Rightarrow> Inl (KeyError k) | Some v \<Rightarrow> Inr v)"

text \<open>\<open>d[k].append(v)\<close>: the list is looked up before the value is computed.\<close>

definition dappend :: "pydict \<Rightarrow> string \<Rightarrow> error + item \<Rightarrow> error + pydict" where
  "dappend d k v = ebind (dget d k) (\<lambda>xs. ebind v (\<lambda>x. Inr (AList.update k (xs @ [x]) d)))"

definition as_arr :: "item \<Rightarrow> error + real list" where
  "as_arr it = (case it of Arr a \<Rightarrow> Inr a | Flt x \<Rightarrow> Inr [x] | Str s \<Rightarrow> Inl TypeError)"

definition as_flt :: "item \<Rightarrow> error + real" where
  "as_flt it = (case it of Flt x \<Rightarrow> Inr x | _ \<Rightarrow> Inl TypeError)"

text \<open>\<open>d[k][i]\<close> read as an array, \<open>d[k][i]\<close> read as a float, and the whole list \<open>d[k]\<close> read
  as arrays or as floats.\<close>

definition darr :: "pydict \<Rightarrow> string \<Rightarrow> nat \<Rightarrow> error + real list" where
  "darr d k i = ebind (dget d k) (\<lambda>xs. ebind (py_index xs (int i)) as_arr)"

definition dflt :: "pydict \<Rightarrow> string \<Rightarrow> nat \<Rightarrow> error + real" where
  "dflt d k i = ebind (dget d k) (\<lambda>xs. ebind (py_index xs (int i)) as_flt)"

definition darrs :: "pydict \<Rightarrow> string \<Rightarrow> error + real list list" where
  "darrs d k = ebind (dget d k) (emap as_arr)"

definition dflts :: "pydict \<Rightarrow> string \<Rightarrow> error + real list" where
  "dflts d k = ebind (dget d k) (emap as_flt)"

text \<open>\<open>np.hstack\<close> of a list of arrays; it raises ValueError on the empty list.\<close>

definition hstack :: "real list list \<Rightarrow> error + real list" where
  "hstack xss = (if xss = [] then Inl ValueError else Inr (concat xss))"

text \<open>The instance. An attribute that has not been assigned yet is \<open>None\<close>, and reading it
  raises AttributeError.\<close>

record Photometry =
  data :: "pydict option"
  atmo_grid :: "AtmoGridPhot list option"
  ndataset :: "nat option"
  star :: "Star option"
  ext :: "real list option"
  grouping :: "nat list option"
  mag :: "real list option"
  err :: "real list option"
  phase :: "real list option"
  flux :: "real list option"
  flux_err :: "real list option"
  ndata :: "nat option"

definition new_Photometry :: Photometry where
  "new_Photometry =
     \<lparr>data = None, atmo_grid = None, ndataset = None, star = None, ext = None,
      grouping = None, mag = None, err = None, phase = None, flux = None, flux_err = None,
      ndata = None\<rparr>"

definition attr :: "string \<Rightarrow> 'a option \<Rightarrow> error + 'a" where
  "attr name v = (case v of None \<Rightarrow> Inl (AttributeError name) | Some x \<Rightarrow> Inr x)"

fun efold :: "('s \<Rightarrow> 'a \<Rightarrow> error + 's) \<Rightarrow> 'a list \<Rightarrow> 's \<Rightarrow> error + 's" where
  "efold step [] s = Inr s"
| "efold step (x # xs) s = ebind (step s x) (efold step xs)"

subsection \<open>\_Read\_data and \_Read\_atmo\<close>

text \<open>\<open>str.split()\<close> of Python 2: the maximal runs of characters that are not whitespace.\<close>

definition is_space :: "char \<Rightarrow> bool" where
  "is_space ch = (ch \<in> set [CHR '' '', CHR 0x09, CHR 0x0A, CHR 0x0B, CHR 0x0C, CHR 0x0D])"

fun split_acc :: "string \<Rightarrow> string \<Rightarrow> string list" where
  "split_acc cur [] = (if cur = [] then [] else [cur])"
| "split_acc cur (ch # cs) =
     (if is_space ch then (if cur = [] then split_acc [] cs else cur # split_acc [] cs)
      else split_acc (cur @ [ch]) cs)"

definition split :: "string \<Rightarrow> string list" where
  "split line = split_acc [] line"

text \<open>The test \<open>(line[0] != '#') and (line[0] != '\n')\<close>.\<close>

definition is_record :: "string \<Rightarrow> error + bool" where
  "is_record line =
     (case line of [] \<Rightarrow> Inl IndexError
      | ch # _ \<Rightarrow> Inr (ch \<noteq> CHR ''#'' \<and> ch \<noteq> CHR 0x0A))"

text \<open>The four branches of \<open>_Read_data\<close> run the same statements and differ in the keys the
  values and their errors are appended to (\<open>mag\<close> and \<open>err\<close>, or \<open>flux\<close> and \<open>flux_err\<close>)
  and in the softening (0 in the 7-column format, \<open>float(tmp[6])\<close> otherwise). \<open>tmp\<close> has
  at least seven entries here.\<close>

definition read_record ::
  "'e Env_scheme \<Rightarrow> pydict \<Rightarrow> string list \<Rightarrow> string \<Rightarrow> string \<Rightarrow> bool \<Rightarrow> error + pydict" where
  "read_record E d tmp valkey errkey has_softening =
     ebind (py_int E (tmp ! 1)) (\<lambda>c1.
     ebind (py_int E (tmp ! 2)) (\<lambda>c2.
     ebind (py_int E (tmp ! 3)) (\<lambda>c3.
     ebind (loadtxt E (last tmp) [c1, c2, c3]) (\<lambda>cols.
     ebind (dappend d ''phase''
              (ebind (py_index cols 0) (\<lambda>d0.
               ebind (py_float E (tmp ! 4)) (\<lambda>shift.
                 Inr (Arr (if CHR ''_'' \<in> set (tmp ! 0) then map (\<lambda>p. p - shift) d0
                           else map (\<lambda>p. frac (p - shift)) d0)))))) (\<lambda>d.
     ebind (dappend d valkey (ebind (py_index cols 1) (\<lambda>d1. Inr (Arr d1)))) (\<lambda>d.
     ebind (dappend d errkey (ebind (py_index cols 2) (\<lambda>d2. Inr (Arr d2)))) (\<lambda>d.
     ebind (dappend d ''calib'' (ebind (py_float E (tmp ! 5)) (\<lambda>x. Inr (Flt x)))) (\<lambda>d.
     ebind (dappend d ''fln'' (Inr (Str (last tmp)))) (\<lambda>d.
     ebind (dappend d ''id'' (Inr (Str (tmp ! 0)))) (\<lambda>d.
     dappend d ''softening''
       (if has_softening then ebind (py_float E (tmp ! 6)) (\<lambda>x. Inr (Flt x))
        else Inr (Flt 0))))))))))))"

definition Read_data_line :: "'e Env_scheme \<Rightarrow> pydict \<Rightarrow> string \<Rightarrow> error + pydict" where
  "Read_data_line E d line =
     ebind (is_record line) (\<lambda>r.
       if r then
         (let tmp = split line in
          if length tmp = 7 then read_record E d tmp ''mag'' ''err'' False
          else if length tmp = 8 then read_record E d tmp ''mag'' ''err'' True
          else if length tmp = 9 then
            (if tmp ! 7 = ''mag'' then read_record E d tmp ''mag'' ''err'' True
             else if tmp ! 7 = ''flux'' then read_record E d tmp ''flux'' ''flux_err'' True
             else
               ebind (py_int E (tmp ! 1)) (\<lambda>c1.
               ebind (py_int E (tmp ! 2)) (\<lambda>c2.
               ebind (py_int E (tmp ! 3)) (\<lambda>c3.
               ebind (loadtxt E (last tmp) [c1, c2, c3]) (\<lambda>cols. Inr d)))))
          else Inl (PyException ''The data file does not have the expected number of columns.''))
       else Inr d)"

definition empty_data :: pydict where
  "empty_data =
     [(''mag'', []), (''phase'', []), (''err'', []), (''calib'', []), (''fln'', []),
      (''id'', []), (''softening'', [])]"

definition Read_data :: "'e Env_scheme \<Rightarrow> Photometry \<Rightarrow> string \<Rightarrow> error + Photometry" where
  "Read_data E self data_fln =
     ebind (readlines E data_fln) (\<lambda>lines.
     ebind (efold (Read_data_line E) lines empty_data) (\<lambda>d.
       Inr (self\<lparr>data := Some d\<rparr>)))"

definition Read_atmo_line ::
  "'e Env_scheme \<Rightarrow> AtmoGridPhot list \<Rightarrow> string \<Rightarrow> error + AtmoGridPhot list" where
  "Read_atmo_line E grids line =
     ebind (is_record line) (\<lambda>r.
       if r then
         ebind (py_index (split line) 1) (\<lambda>fln.
         ebind (ReadHDF5 E fln) (\<lambda>g. Inr (grids @ [g])))
       else Inr grids)"

definition Read_atmo :: "'e Env_scheme \<Rightarrow> Photometry \<Rightarrow> string \<Rightarrow> error + Photometry" where
  "Read_atmo E self atmo_fln =
     ebind (readlines E atmo_fln) (\<lambda>lines.
     ebind (efold (Read_atmo_line E) lines []) (\<lambda>grids.
       Inr (self\<lparr>atmo_grid := Some grids\<rparr>)))"

subsection \<open>\_Setup and \_\_init\_\_\<close>

text \<open>The inner loop of \<open>_Setup\<close>: \<open>for j in np.arange(i+1): if id[i] == id[j]: ...; break\<close>.
  It returns the first \<open>j\<close> of the range whose id equals the id of dataset \<open>i\<close>.\<close>

fun first_same :: "item list \<Rightarrow> item \<Rightarrow> nat list \<Rightarrow> nat option" where
  "first_same ids idi [] = None"
| "first_same ids idi (j # js) = (if idi = ids ! j then Some j else first_same ids idi js)"

text \<open>One pass of the outer loop. The state is the list \<open>ext\<close>, the dictionary, the array
  \<open>grouping\<close> and the local variables \<open>flux, flux_err\<close>, which are unbound (\<open>None\<close>) until a
  branch assigns them.\<close>

type_synonym setup_state =
  "real list \<times> pydict \<times> nat list \<times> (real list \<times> real list) option"

definition Setup_step ::
  "'u Utils_scheme \<Rightarrow> AtmoGridPhot list \<Rightarrow> bool \<Rightarrow> setup_state \<Rightarrow> nat \<Rightarrow> error + setup_state" where
  "Setup_step U grids has_mag st i =
     (case st of (ext_acc, d, grp, loc) \<Rightarrow>
      ebind (darr d ''phase'' i) (\<lambda>ph.
      ebind (py_index grids (int i)) (\<lambda>g.
      ebind (dappend d ''ext'' (Inr (Flt (meta_ext g)))) (\<lambda>d.
      ebind (dflt d ''softening'' i) (\<lambda>soft.
      ebind
        (if soft = 0 then
           (if has_mag then
              ebind (darr d ''mag'' i) (\<lambda>m.
              ebind (darr d ''err'' i) (\<lambda>e.
              ebind (Mag_to_flux U m (Some e) (meta_zp g)) (\<lambda>r. Inr (Some r))))
            else
              ebind (darr d ''flux'' i) (\<lambda>fl.
              ebind (darr d ''flux_err'' i) (\<lambda>fe.
              ebind (Flux_to_mag U fl (Some fe) (meta_zp g)) (\<lambda>r. Inr loc))))
         else
           ebind (darr d ''mag'' i) (\<lambda>m.
           ebind (darr d ''err'' i) (\<lambda>e.
           ebind (Asinh_to_flux U m (Some e) (meta_zp g) soft) (\<lambda>r. Inr (Some r))))) (\<lambda>loc.
      ebind (dappend d ''flux''
               (case loc of None \<Rightarrow> Inl (NameError ''flux'') | Some r \<Rightarrow> Inr (Arr (fst r)))) (\<lambda>d.
      ebind (dappend d ''flux_err''
               (case loc of None \<Rightarrow> Inl (NameError ''flux_err'') | Some r \<Rightarrow> Inr (Arr (snd r)))) (\<lambda>d.
      ebind (dget d ''id'') (\<lambda>ids.
      ebind (py_index ids (int i)) (\<lambda>idi.
        Inr (ext_acc @ map (\<lambda>p. p * 0 + meta_ext g) ph, d,
             (case first_same ids idi [0..<i + 1] of None \<Rightarrow> grp | Some j \<Rightarrow> grp[i := j]),
             loc)))))))))))"

definition Setup :: "'u Utils_scheme \<Rightarrow> Photometry \<Rightarrow> error + Photometry" where
  "Setup U self =
     ebind (attr ''data'' (data self)) (\<lambda>d0.
     let d1 = AList.update ''ext'' [] d0;
         has_mag = (map_of d1 ''mag'' \<noteq> None);
         d2 = (if has_mag then AList.update ''flux_err'' [] (AList.update ''flux'' [] d1)
               else AList.update ''err'' [] (AList.update ''mag'' [] d1))
     in
     ebind (attr ''ndataset'' (ndataset self)) (\<lambda>n.
     ebind (attr ''atmo_grid'' (atmo_grid self)) (\<lambda>grids.
     ebind (efold (Setup_step U grids has_mag) [0..<n] ([], d2, [0..<n], None))
       (\<lambda>(ext_acc, d, grp, loc).
     ebind (dget d ''ext'') (\<lambda>es.
     ebind (dget d ''calib'') (\<lambda>cs.
     ebind (ebind (darrs d ''mag'') hstack) (\<lambda>mag_all.
     ebind (ebind (darrs d ''err'') hstack) (\<lambda>err_all.
     ebind (ebind (darrs d ''phase'') hstack) (\<lambda>phase_all.
     ebind (ebind (darrs d ''flux'') hstack) (\<lambda>flux_all.
     ebind (ebind (darrs d ''flux_err'') hstack) (\<lambda>flux_err_all.
       Inr (self\<lparr>data := Some d, ext := Some ext_acc, grouping := Some grp,
                 mag := Some mag_all, err := Some err_all, phase := Some phase_all,
                 flux := Some flux_all, flux_err := Some flux_err_all,
                 ndata := Some (length flux_all)\<rparr>))))))))))))"

definition Init_lightcurve ::
  "'e Env_scheme \<Rightarrow> Photometry \<Rightarrow> int \<Rightarrow> bool \<Rightarrow> error + Photometry" where
  "Init_lightcurve E self n rd = ebind (Star_init E n rd) (\<lambda>s. Inr (self\<lparr>star := Some s\<rparr>))"

text \<open>\<open>Photometry.__init__(atmo_fln, data_fln, ndiv, read)\<close>. \<open>Inl\<close> is an exception that leaves
  the constructor; \<open>Inr\<close> is the instance the caller receives. When the numbers of
  atmosphere grids and of datasets differ the constructor prints a message and returns.\<close>

definition Photometry_init ::
  "'u Utils_scheme \<Rightarrow> 'e Env_scheme \<Rightarrow> string \<Rightarrow> string \<Rightarrow> int \<Rightarrow> bool \<Rightarrow> error + Photometry" where
  "Photometry_init U E atmo_fln data_fln n rd =
     ebind (Read_data E new_Photometry data_fln) (\<lambda>self.
     ebind (Read_atmo E self atmo_fln) (\<lambda>self.
     ebind (attr ''atmo_grid'' (atmo_grid self)) (\<lambda>grids.
     ebind (attr ''data'' (data self)) (\<lambda>d.
     ebind (dget d ''mag'') (\<lambda>mags.
       if length grids \<noteq> length mags then Inr self
       else
         ebind (Init_lightcurve E (self\<lparr>ndataset := Some (length grids)\<rparr>) n rd)
           (Setup U))))))"

subsection \<open>Make\_surface and Get\_flux\<close>

datatype params = ParList "real list" | ParDict "string \<rightharpoonup> real"

definition par_values :: "params \<Rightarrow> error + real list" where
  "par_values par =
     (case par of
        ParDict m \<Rightarrow>
          emap (\<lambda>k. case m k of None \<Rightarrow> Inl (KeyError k) | Some v \<Rightarrow> Inr v)
            [''q'', ''porb'', ''incl'', ''k1'', ''omega'', ''filling'', ''tempgrav'', ''temp'',
             ''tirr'']
      | ParList xs \<Rightarrow> emap (py_index xs) [0, 1, 2, 3, 4, 5, 6, 7, 8])"

definition Make_surface :: "'e Env_scheme \<Rightarrow> Photometry \<Rightarrow> params \<Rightarrow> error + Photometry" where
  "Make_surface E self par =
     ebind (attr ''star'' (star self)) (\<lambda>s.
     ebind (par_values par) (\<lambda>vs.
     ebind (Star_Make_surface E s vs) (\<lambda>s'. Inr (self\<lparr>star := Some s'\<rparr>))))"

datatype prediction = PerSet "real list list" | Flat "real list"

text \<open>The magnitudes of dataset \<open>i\<close> computed from the star:
  \<open>np.array([self.star.Mag_flux(phase, atmo_grid=self.atmo_grid[i]) for phase in phases[i]]) + offsets[i]\<close>.\<close>

definition Mag_flux_curve ::
  "'e Env_scheme \<Rightarrow> Photometry \<Rightarrow> real list list \<Rightarrow> real list \<Rightarrow> nat \<Rightarrow> error + real list" where
  "Mag_flux_curve E self phases offsets i =
     ebind (py_index phases (int i)) (\<lambda>ph.
     ebind (emap (\<lambda>p.
              ebind (attr ''star'' (star self)) (\<lambda>s.
              ebind (attr ''atmo_grid'' (atmo_grid self)) (\<lambda>grids.
              ebind (py_index grids (int i)) (\<lambda>g. Star_Mag_flux E s p g)))) ph) (\<lambda>ms.
     ebind (py_index offsets (int i)) (\<lambda>off. Inr (map (\<lambda>m. m + off) ms))))"

text \<open>The first loop of \<open>Get_flux\<close>: dataset \<open>i\<close> is copied from \<open>flux[grouping[i]]\<close> when a
  sample count is set and \<open>grouping[i] < i\<close>, and computed otherwise.\<close>

definition Get_flux_step ::
  "'e Env_scheme \<Rightarrow> Photometry \<Rightarrow> nat option \<Rightarrow> real list list \<Rightarrow> real list
     \<Rightarrow> real list list \<Rightarrow> nat \<Rightarrow> error + real list list" where
  "Get_flux_step E self nsamples phases offsets fl i =
     ebind (if nsamples = None then Inr False
            else ebind (attr ''grouping'' (grouping self)) (\<lambda>grp.
                 ebind (py_index grp (int i)) (\<lambda>gi. Inr (gi < i)))) (\<lambda>copy.
       if copy then
         ebind (attr ''grouping'' (grouping self)) (\<lambda>grp.
         ebind (py_index grp (int i)) (\<lambda>gi.
         ebind (py_index fl (int gi)) (\<lambda>c. Inr (fl @ [c]))))
       else ebind (Mag_flux_curve E self phases offsets i) (\<lambda>c. Inr (fl @ [c])))"

text \<open>The second loop, run when a sample count is set: the sampled curve of dataset \<open>i\<close> is
  interpolated at the observed phases of dataset \<open>i\<close>.\<close>

definition Get_flux_interp ::
  "'u Utils_scheme \<Rightarrow> pydict \<Rightarrow> real list list \<Rightarrow> real list list \<Rightarrow> nat
     \<Rightarrow> error + real list list" where
  "Get_flux_interp U d phases fl i =
     ebind (py_index phases (int i)) (\<lambda>ph.
     ebind (darr d ''phase'' i) (\<lambda>obs.
     ebind (Getaxispos_vector U ph obs) (\<lambda>(ws, inds).
     ebind (py_index fl (int i)) (\<lambda>c.
     ebind (interp_at c ws inds) (\<lambda>c'. Inr (fl[i := c']))))))"

definition Get_flux ::
  "'u Utils_scheme \<Rightarrow> 'e Env_scheme \<Rightarrow> Photometry \<Rightarrow> params \<Rightarrow> bool \<Rightarrow> real option
     \<Rightarrow> real option \<Rightarrow> nat option \<Rightarrow> error + prediction" where
  "Get_flux U E self0 par flat DM AV nsamples =
     ebind (Make_surface E self0 par) (\<lambda>self.
     ebind (attr ''data'' (data self)) (\<lambda>d.
     ebind (case nsamples of
              None \<Rightarrow> darrs d ''phase''
            | Some ns \<Rightarrow>
                ebind (attr ''ndataset'' (ndataset self)) (\<lambda>n.
                  Inr (replicate n (map (\<lambda>k. real k / real ns) [0..<ns])))) (\<lambda>phases.
     let DM' = (case DM of None \<Rightarrow> 0 | Some v \<Rightarrow> v);
         AV' = (case AV of None \<Rightarrow> 0 | Some v \<Rightarrow> v)
     in
     ebind (dflts d ''ext'') (\<lambda>exts.
     let offsets = map (\<lambda>e. e * AV' + DM') exts in
     ebind (attr ''ndataset'' (ndataset self)) (\<lambda>n.
     ebind (efold (Get_flux_step E self nsamples phases offsets) [0..<n] []) (\<lambda>fl.
     ebind (if nsamples = None then Inr fl
            else efold (Get_flux_interp U d phases) [0..<n] fl) (\<lambda>fl.
       if flat then ebind (hstack fl) (\<lambda>v. Inr (Flat v)) else Inr (PerSet fl))))))))"

subsection \<open>Calc\_chi2\<close>

datatype residuals = ResFlat "real list" | ResPerSet "real list list" | ResNone

text \<open>The dictionary of the full output: \<open>'offset'\<close>, \<open>'par'\<close>, \<open>'res'\<close>, \<open>'dm'\<close>, \<open>'av'\<close>.\<close>

record extras =
  offset :: "real list"
  par_out :: params
  res :: residuals
  dm :: real
  av :: real

text \<open>The fit of dataset \<open>i\<close> in the magnitude domain,
  \<open>Fit_linear(self.data['mag'][i]-pred_flux[i], err=self.data['err'][i], m=0., inline=True)\<close>,
  and in the flux domain,
  \<open>Fit_linear(self.data['flux'][i], x=Mag_to_flux(pred_flux[i], flux0=self.atmo_grid[i].flux0),
  err=self.data['flux_err'][i], b=0., inline=True)\<close>.\<close>

definition data_fit_mag ::
  "'u Utils_scheme \<Rightarrow> pydict \<Rightarrow> real list list \<Rightarrow> nat \<Rightarrow> error + (real \<times> real \<times> real)" where
  "data_fit_mag U d pred_flux i =
     ebind (darr d ''mag'' i) (\<lambda>m.
     ebind (py_index pred_flux (int i)) (\<lambda>p.
     ebind (np_sub m p) (\<lambda>diff.
     ebind (darr d ''err'' i) (\<lambda>e.
       Fit_linear U diff None (Some e) None (Some 0)))))"

definition data_fit_flux ::
  "'u Utils_scheme \<Rightarrow> Photometry \<Rightarrow> pydict \<Rightarrow> real list list \<Rightarrow> nat
     \<Rightarrow> error + (real \<times> real \<times> real)" where
  "data_fit_flux U self d pred_flux i =
     ebind (darr d ''flux'' i) (\<lambda>fl.
     ebind (py_index pred_flux (int i)) (\<lambda>p.
     ebind (attr ''atmo_grid'' (atmo_grid self)) (\<lambda>grids.
     ebind (py_index grids (int i)) (\<lambda>g.
     ebind (Mag_to_flux U p None (flux0 g)) (\<lambda>r.
     ebind (darr d ''flux_err'' i) (\<lambda>fe.
       Fit_linear U fl (Some (fst r)) (Some fe) (Some 0) None))))))"

text \<open>\<open>((self.data['mag'][i]-pred_flux[i]) - offset_band[i])/self.data['err'][i]\<close>.\<close>

definition residual_mag ::
  "pydict \<Rightarrow> real list list \<Rightarrow> real list \<Rightarrow> nat \<Rightarrow> error + real list" where
  "residual_mag d pred_flux offset_band i =
     ebind (darr d ''mag'' i) (\<lambda>m.
     ebind (py_index pred_flux (int i)) (\<lambda>p.
     ebind (np_sub m p) (\<lambda>diff.
     ebind (py_index offset_band (int i)) (\<lambda>off.
     ebind (darr d ''err'' i) (\<lambda>e.
       np_div (map (\<lambda>x. x - off) diff) e)))))"

text \<open>\<open>res1[:,k]\<close> on \<open>res1 = np.array([...])\<close>: with no dataset the array has one
  dimension and the index raises IndexError.\<close>

definition column :: "('r \<Rightarrow> real) \<Rightarrow> 'r list \<Rightarrow> error + real list" where
  "column sel rows = (if rows = [] then Inl IndexError else Inr (map sel rows))"

definition np_log10 :: "real \<Rightarrow> error + real" where
  "np_log10 x = (if x \<le> 0 then Inl NotFinite else Inr (log 10 x))"

definition Calc_chi2 ::
  "'u Utils_scheme \<Rightarrow> 'e Env_scheme \<Rightarrow> Photometry \<Rightarrow> params \<Rightarrow> int \<Rightarrow> real option
     \<Rightarrow> real option \<Rightarrow> nat option \<Rightarrow> bool \<Rightarrow> bool \<Rightarrow> error + (real \<times> extras option)" where
  "Calc_chi2 U E self par offset_free DM AV nsamples influx full_output =
     (if offset_free = 0 then
        ebind (Get_flux U E self par True (Some 0) (Some 0) nsamples) (\<lambda>pred.
        ebind (case pred of Flat v \<Rightarrow> Inr v | PerSet vs \<Rightarrow> hstack vs) (\<lambda>pred_flux.
        ebind (attr ''mag'' (mag self)) (\<lambda>mag_all.
        ebind (np_sub mag_all pred_flux) (\<lambda>diff.
        ebind (attr ''ext'' (ext self)) (\<lambda>ext_all.
        ebind (attr ''err'' (err self)) (\<lambda>err_all.
        ebind (Fit_linear U diff (Some ext_all) (Some err_all) DM AV) (\<lambda>(DM', AV', chi2_data).
        ebind (np_sub diff (map (\<lambda>x. x * AV' + DM') ext_all)) (\<lambda>num.
        ebind (np_div num err_all) (\<lambda>residuals.
        ebind (attr ''ndataset'' (ndataset self)) (\<lambda>n.
          let offset_band = replicate n 0;
              chi2_band = 0;
              chi2 = chi2_data + chi2_band
          in Inr (chi2,
                  if full_output then
                    Some \<lparr>offset = offset_band, par_out = par, res = ResFlat residuals,
                          dm = DM', av = AV'\<rparr>
                  else None)))))))))))
      else
        ebind (Get_flux U E self par False (Some 0) (Some 0) nsamples) (\<lambda>pred.
        let pred_flux = (case pred of PerSet vs \<Rightarrow> vs | Flat v \<Rightarrow> [v]) in
        ebind (attr ''ndataset'' (ndataset self)) (\<lambda>n.
        ebind (attr ''data'' (data self)) (\<lambda>d.
        ebind
          (if influx then
             ebind (emap (data_fit_flux U self d pred_flux) [0..<n]) (\<lambda>res1.
             ebind (column (\<lambda>(b, m, c). m) res1) (\<lambda>slopes.
             ebind (emap np_log10 slopes) (\<lambda>ls.
               Inr (res1, map (\<lambda>l. - (5 / 2) * l) ls, ResNone))))
           else
             ebind (emap (data_fit_mag U d pred_flux) [0..<n]) (\<lambda>res1.
             ebind (column (\<lambda>(b, m, c). b) res1) (\<lambda>offset_band.
             ebind (if full_output then
                      ebind (emap (residual_mag d pred_flux offset_band) [0..<n])
                        (\<lambda>rs. Inr (ResPerSet rs))
                    else Inr ResNone) (\<lambda>residuals.
               Inr (res1, offset_band, residuals)))))
          (\<lambda>(res1, offset_band, residuals).
        ebind (column (\<lambda>(b, m, c). c) res1) (\<lambda>chi2s.
        let chi2_data = sum_list chi2s in
        ebind (dflts d ''ext'') (\<lambda>exts.
        ebind (dflts d ''calib'') (\<lambda>calibs.
        ebind (Fit_linear U offset_band (Some exts) (Some calibs) DM AV) (\<lambda>(DM', AV', chi2_band).
        let chi2 = chi2_data + chi2_band in
        ebind (np_sub offset_band (map (\<lambda>e. e * AV' + DM') exts)) (\<lambda>offset_band.
          Inr (chi2,
               if full_output then
                 Some \<lparr>offset = offset_band, par_out = par, res = residuals,
                       dm = DM', av = AV'\<rparr>
               else None)))))))))))"

subsection \<open>Get\_Keff\<close>

text \<open>The argument \<open>atmo_grid\<close> of \<open>Get_Keff\<close> is an index into \<open>self.atmo_grid\<close> or a grid.
  With \<open>make_surface\<close> set the call evaluates the name \<open>func_par\<close>, which is bound nowhere.
  \<open>cts.twopi\<close> comes from \<open>import_modules\<close> and is \<open>2 * pi\<close>.\<close>

datatype grid_arg = GridIndex int | GridObj AtmoGridPhot

definition pick_grid :: "Photometry \<Rightarrow> grid_arg \<Rightarrow> error + AtmoGridPhot" where
  "pick_grid self grid =
     (case grid of
        GridIndex k \<Rightarrow> ebind (attr ''atmo_grid'' (atmo_grid self)) (\<lambda>grids. py_index grids k)
      | GridObj g \<Rightarrow> Inr g)"

definition Get_Keff ::
  "'u Utils_scheme \<Rightarrow> 'e Env_scheme \<Rightarrow> Photometry \<Rightarrow> params \<Rightarrow> int \<Rightarrow> grid_arg \<Rightarrow> bool
     \<Rightarrow> error + real" where
  "Get_Keff U E self par nphases grid make_surface =
     (if make_surface then Inl (NameError ''func_par'')
      else
        ebind (pick_grid self grid) (\<lambda>g.
        let phases = map (\<lambda>k. real k / real_of_int nphases) [0..<nat nphases] in
        ebind (emap (\<lambda>p. ebind (attr ''star'' (star self)) (\<lambda>s. Star_Keff E s p g)) phases)
          (\<lambda>Keffs.
        ebind (Fit_linear U Keffs (Some (map (\<lambda>p. sin (2 * pi * p)) phases)) None None None)
          (\<lambda>(b, m, c). Inr m))))"

subsection \<open>Get\_flux without the copies\<close>

text \<open>The computation \<open>Get_flux\<close> is compared with: every dataset is computed from the star
  with its own atmosphere grid and offset, and none is copied from its group. The rest is
  \<open>Get_flux\<close> as it is.\<close>

definition Get_flux_recompute ::
  "'u Utils_scheme \<Rightarrow> 'e Env_scheme \<Rightarrow> Photometry \<Rightarrow> params \<Rightarrow> bool \<Rightarrow> real option
     \<Rightarrow> real option \<Rightarrow> nat option \<Rightarrow> error + prediction" where
  "Get_flux_recompute U E self0 par flat DM AV nsamples =
     ebind (Make_surface E self0 par) (\<lambda>self.
     ebind (attr ''data'' (data self)) (\<lambda>d.
     ebind (case nsamples of
              None \<Rightarrow> darrs d ''phase''
            | Some ns \<Rightarrow>
                ebind (attr ''ndataset'' (ndataset self)) (\<lambda>n.
                  Inr (replicate n (map (\<lambda>k. real k / real ns) [0..<ns])))) (\<lambda>phases.
     let DM' = (case DM of None \<Rightarrow> 0 | Some v \<Rightarrow> v);
         AV' = (case AV of None \<Rightarrow> 0 | Some v \<Rightarrow> v)
     in
     ebind (dflts d ''ext'') (\<lambda>exts.
     let offsets = map (\<lambda>e. e * AV' + DM') exts in
     ebind (attr ''ndataset'' (ndataset self)) (\<lambda>n.
     ebind (efold (\<lambda>fl i. ebind (Mag_flux_curve E self phases offsets i) (\<lambda>c. Inr (fl @ [c])))
              [0..<n] []) (\<lambda>fl.
     ebind (if nsamples = None then Inr fl
            else efold (Get_flux_interp U d phases) [0..<n] fl) (\<lambda>fl.
       if flat then ebind (hstack fl) (\<lambda>v. Inr (Flat v)) else Inr (PerSet fl))))))))"

section \<open>The helper functions as the specification describes them\<close>

text \<open>Modelled from the spec: \<open>Misc.Fit_linear\<close> (the spec's LinearFit, 4.1), whose module is
  missing from the sources. Given paired sequences \<open>y\<close> and \<open>x\<close> (the index when left out),
  weights \<open>1 / error^2\<close> (1 when no error is given) and an intercept \<open>b\<close> and a slope \<open>m\<close> that
  are fixed when given, it minimises \<open>\<Sum> weight * (y - (slope * x + intercept))^2\<close>: the two
  by two weighted normal equations when both are free, the one-parameter least squares
  when one is fixed, no fit when both are. It returns the intercept, the slope and the
  chi-square of the returned parameters. It fails with DegenerateInputError when there
  are fewer points than free parameters, when all weights are non-finite (every error is
  zero), or when the fit is ill-conditioned (the normal equations are singular). Sequences
  that are not paired are outside the contract and rejected; a single zero error makes a
  weight non-finite.\<close>

definition wsum :: "real list \<Rightarrow> real list \<Rightarrow> real" where
  "wsum w v = sum_list (map2 (*) w v)"

definition chi_square :: "real list \<Rightarrow> real list \<Rightarrow> real list \<Rightarrow> real \<Rightarrow> real \<Rightarrow> real" where
  "chi_square w x y b m = wsum w (map2 (\<lambda>xi yi. (yi - (m * xi + b))\<^sup>2) x y)"

definition spec_Fit_linear :: linfit where
  "spec_Fit_linear y x er b m =
     (let n = length y;
          xs = (case x of None \<Rightarrow> map real [0..<n] | Some v \<Rightarrow> v);
          es = (case er of None \<Rightarrow> replicate n 1 | Some v \<Rightarrow> v);
          nfree = (if b = None then 1 else 0) + (if m = None then 1 else (0::nat))
      in
      if length xs \<noteq> n \<or> length es \<noteq> n then Inl ValueError
      else if n < nfree \<or> (es \<noteq> [] \<and> list_all (\<lambda>e. e = 0) es) then Inl DegenerateInputError
      else if 0 \<in> set es then Inl NotFinite
      else
        (let w = map (\<lambda>e. 1 / e\<^sup>2) es;
             S = sum_list w;
             Sx = wsum w xs;
             Sy = wsum w y;
             Sxx = wsum w (map (\<lambda>v. v\<^sup>2) xs);
             Sxy = wsum w (map2 (*) xs y)
         in
         case (b, m) of
           (Some b0, Some m0) \<Rightarrow> Inr (b0, m0, chi_square w xs y b0 m0)
         | (Some b0, None) \<Rightarrow>
             if Sxx = 0 then Inl DegenerateInputError
             else (let m1 = (Sxy - b0 * Sx) / Sxx in Inr (b0, m1, chi_square w xs y b0 m1))
         | (None, Some m0) \<Rightarrow>
             if S = 0 then Inl DegenerateInputError
             else (let b1 = (Sy - m0 * Sx) / S in Inr (b1, m0, chi_square w xs y b1 m0))
         | (None, None) \<Rightarrow>
             (let D = S * Sxx - Sx\<^sup>2 in
              if D = 0 then Inl DegenerateInputError
              else (let b1 = (Sxx * Sy - Sx * Sxy) / D;
                        m1 = (S * Sxy - Sx * Sy) / D
                    in Inr (b1, m1, chi_square w xs y b1 m1)))))"

text \<open>Modelled from the spec: \<open>Series.Getaxispos_vector\<close> (the spec's AxisInterpolator, 4.2),
  whose module is missing from the sources. For a strictly monotonic grid \<open>g\<close> of length
  \<open>N\<close> and each query \<open>q\<close> it returns the bracketing index, clamped to \<open>[0, N - 2]\<close>, and
  the weight with \<open>q = g[index] * (1 - weight) + g[index + 1] * weight\<close>; beyond the grid
  the clamped index extrapolates. A grid of fewer than two points has no segment.\<close>

definition bracket :: "real list \<Rightarrow> real \<Rightarrow> int" where
  "bracket g q =
     (let below = (if hd g \<le> last g then (\<lambda>v. v \<le> q) else (\<lambda>v. q \<le> v));
          k = int (length (filter below g)) - 1
      in max 0 (min (int (length g) - 2) k))"

definition spec_Getaxispos_vector :: axispos where
  "spec_Getaxispos_vector g qs =
     (if length g < 2 then Inl IndexError
      else
        ebind (emap (\<lambda>q.
            let i = nat (bracket g q) in
            ebind (sdiv (q - g ! i) (g ! (i + 1) - g ! i)) (\<lambda>wt. Inr (wt, int i))) qs)
          (\<lambda>ps. Inr (map fst ps, map snd ps)))"

section \<open>Definitions for the proofs and the examples\<close>

text \<open>The grouping after the first k passes of the loop.\<close>

definition grouped :: "item list \<Rightarrow> nat \<Rightarrow> nat \<Rightarrow> nat list \<Rightarrow> bool" where
  "grouped ids n k grp \<longleftrightarrow>
     length grp = n \<and>
     (\<forall>i<k. grp ! i \<le> i \<and> ids ! (grp ! i) = ids ! i \<and> (\<forall>j<grp ! i. ids ! j \<noteq> ids ! i)) \<and>
     (\<forall>i. k \<le> i \<and> i < n \<longrightarrow> grp ! i = i)"


text \<open>Modelled from the spec: \<open>Flux.Mag_to_flux\<close> (the spec's UnitConverter, 4.3), whose module
  is missing from the sources: \<open>flux = zero_point * 10^(-0.4 * mag)\<close>, with the error
  propagated to first order. It is used in the example instances only.\<close>

definition spec_Mag_to_flux :: "real list \<Rightarrow> real list option \<Rightarrow> real \<Rightarrow> error + (real list \<times> real list)" where
  "spec_Mag_to_flux m e z =
     (let fl = map (\<lambda>x. z * 10 powr (- (2 / 5) * x)) m in
      Inr (fl, case e of None \<Rightarrow> [] | Some es \<Rightarrow> map2 (\<lambda>f s. f * (2 / 5) * ln 10 * s) fl es))"

text \<open>The example instances: the helper functions of the specification, a file system with a
  data file, an atmosphere file and one light-curve table of two observations, and a star
  whose magnitude is linear in the phase. The converters the examples never call raise.\<close>

definition example_Utils :: Utils where
  "example_Utils =
     \<lparr>Fit_linear = spec_Fit_linear, Getaxispos_vector = spec_Getaxispos_vector,
      Mag_to_flux = spec_Mag_to_flux,
      Flux_to_mag = (\<lambda>f e z. Inl ValueError),
      Asinh_to_flux = (\<lambda>m e z s. Inl ValueError)\<rparr>"

definition example_Env :: "string list \<Rightarrow> string list \<Rightarrow> Env" where
  "example_Env data_lines atmo_lines =
     \<lparr>readlines = (\<lambda>f. if f = ''data.txt'' then Inr data_lines
                      else if f = ''atmo.txt'' then Inr atmo_lines else Inl IOError),
      py_int = (\<lambda>s. if s = ''0'' then Inr 0 else if s = ''1'' then Inr 1
                   else if s = ''2'' then Inr 2 else Inl ValueError),
      py_float = (\<lambda>s. if s = ''0.0'' then Inr 0 else if s = ''0.01'' then Inr (1 / 100)
                     else Inl ValueError),
      tables = (\<lambda>f. if f = ''lc.txt'' then Inr [[1 / 4, 20, 1 / 10], [3 / 4, 21, 1 / 10]]
                   else Inl IOError),
      ReadHDF5 = (\<lambda>f. if f = ''V.h5'' then Inr \<lparr>meta_ext = 1, meta_zp = 1, flux0 = 1, table = 0\<rparr>
                     else if f = ''B.h5'' then Inr \<lparr>meta_ext = 2, meta_zp = 1, flux0 = 1, table = 1\<rparr>
                     else Inl IOError),
      Star_init = (\<lambda>n r. Inr \<lparr>ndiv = n, read_primitives = r, surface = None\<rparr>),
      Star_Make_surface = (\<lambda>s vs. Inr (s\<lparr>surface := Some vs\<rparr>)),
      Star_Mag_flux = (\<lambda>s p g. Inr (20 + real (table g) + p)),
      Star_Keff = (\<lambda>s p g. Inr (300 * sin (2 * pi * p) + 7))\<rparr>"

text \<open>A 7-column record, a line of the atmosphere file, and a 9-column record in the flux
  format.\<close>

definition record_line :: "string \<Rightarrow> string" where
  "record_line name = name @ '' 0 1 2 0.0 0.01 lc.txt'' @ [CHR 0x0A]"

definition grid_line :: "string \<Rightarrow> string" where
  "grid_line name = name @ '' '' @ name @ ''.h5'' @ [CHR 0x0A]"


definition flux_line :: "string \<Rightarrow> string" where
  "flux_line name = name @ '' 0 1 2 0.0 0.01 0.0 flux lc.txt'' @ [CHR 0x0A]"


text \<open>The instance the constructor builds from the data lines V, V, B and the atmosphere
  lines V, V, B of the example file system.\<close>

definition example_grids :: "AtmoGridPhot list" where
  "example_grids =
     [\<lparr>meta_ext = 1, meta_zp = 1, flux0 = 1, table = 0\<rparr>,
      \<lparr>meta_ext = 1, meta_zp = 1, flux0 = 1, table = 0\<rparr>,
      \<lparr>meta_ext = 2, meta_zp = 1, flux0 = 1, table = 1\<rparr>]"

definition example_data :: pydict where
  "example_data =
     [(''mag'', [Arr [20, 21], Arr [20, 21], Arr [20, 21]]),
      (''phase'', [Arr [1 / 4, 3 / 4], Arr [1 / 4, 3 / 4], Arr [1 / 4, 3 / 4]]),
      (''err'', [Arr [1 / 10, 1 / 10], Arr [1 / 10, 1 / 10], Arr [1 / 10, 1 / 10]]),
      (''calib'', [Flt (1 / 100), Flt (1 / 100), Flt (1 / 100)]),
      (''fln'', [Str ''lc.txt'', Str ''lc.txt'', Str ''lc.txt'']),
      (''id'', [Str ''V'', Str ''V'', Str ''B'']),
      (''softening'', [Flt 0, Flt 0, Flt 0]),
      (''ext'', [Flt 1, Flt 1, Flt 2]),
      (''flux'', [Arr [10 powr - 8, 10 powr - (42 / 5)], Arr [10 powr - 8, 10 powr - (42 / 5)],
                  Arr [10 powr - 8, 10 powr - (42 / 5)]]),
      (''flux_err'',
         [Arr [ln 10 * 10 powr - 8 / 25, ln 10 * 10 powr - (42 / 5) / 25],
          Arr [ln 10 * 10 powr - 8 / 25, ln 10 * 10 powr - (42 / 5) / 25],
          Arr [ln 10 * 10 powr - 8 / 25, ln 10 * 10 powr - (42 / 5) / 25]])]"

definition example_self :: Photometry where
  "example_self =
     \<lparr>data = Some example_data, atmo_grid = Some example_grids, ndataset = Some 3,
      star = Some \<lparr>ndiv = 5, read_primitives = True, surface = None\<rparr>,
      ext = Some [1, 1, 1, 1, 2, 2], grouping = Some [0, 0, 2],
      mag = Some [20, 21, 20, 21, 20, 21],
      err = Some [1 / 10, 1 / 10, 1 / 10, 1 / 10, 1 / 10, 1 / 10],
      phase = Some [1 / 4, 3 / 4, 1 / 4, 3 / 4, 1 / 4, 3 / 4],
      flux = Some [10 powr - 8, 10 powr - (42 / 5), 10 powr - 8, 10 powr - (42 / 5),
                   10 powr - 8, 10 powr - (42 / 5)],
      flux_err = Some [ln 10 * 10 powr - 8 / 25, ln 10 * 10 powr - (42 / 5) / 25,
                       ln 10 * 10 powr - 8 / 25, ln 10 * 10 powr - (42 / 5) / 25,
                       ln 10 * 10 powr - 8 / 25, ln 10 * 10 powr - (42 / 5) / 25],
      ndata = Some 6\<rparr>"

abbreviation example_E :: Env where
  "example_E \<equiv> example_Env [record_line ''V'', record_line ''V'', record_line ''B'']
          [grid_line ''V'', grid_line ''V'', grid_line ''B'']"

text \<open>What \<open>_Read_data\<close> keeps true of the dictionary: the arrays read so far, one per dataset and
  key, with the magnitudes and errors of a dataset as long as its phases, and no key \<open>flux\<close>.\<close>

definition wf_read ::
  "pydict \<Rightarrow> real list list \<Rightarrow> real list list \<Rightarrow> real list list \<Rightarrow> real list \<Rightarrow> bool" where
  "wf_read d mags errs phases calibs \<longleftrightarrow>
     map_of d ''mag'' = Some (map Arr mags) \<and> map_of d ''err'' = Some (map Arr errs) \<and>
     map_of d ''phase'' = Some (map Arr phases) \<and> map_of d ''calib'' = Some (map Flt calibs) \<and>
     map length mags = map length phases \<and> map length errs = map length phases \<and>
     length calibs = length phases \<and> map_of d ''flux'' = None"

definition wf_data :: "pydict \<Rightarrow> bool" where
  "wf_data d \<longleftrightarrow> (\<exists>mags errs phases calibs. wf_read d mags errs phases calibs)"

text \<open>What the loop of \<open>_Setup\<close> keeps true after \<open>k\<close> passes.\<close>

definition setup_inv ::
  "real list list \<Rightarrow> real list list \<Rightarrow> real list list \<Rightarrow> real list \<Rightarrow> AtmoGridPhot list \<Rightarrow> nat
     \<Rightarrow> setup_state \<Rightarrow> bool" where
  "setup_inv mags errs phases calibs grids k st \<longleftrightarrow>
     (case st of (ea, d, grp, loc) \<Rightarrow>
        map_of d ''mag'' = Some (map Arr mags) \<and> map_of d ''err'' = Some (map Arr errs) \<and>
        map_of d ''phase'' = Some (map Arr phases) \<and> map_of d ''calib'' = Some (map Flt calibs) \<and>
        map_of d ''ext'' = Some (map (\<lambda>i. Flt (meta_ext (grids ! i))) [0..<k]) \<and>
        ea = concat (map (\<lambda>i. replicate (length (phases ! i)) (meta_ext (grids ! i))) [0..<k]) \<and>
        k \<le> length phases \<and> k \<le> length grids)"

text \<open>The instance after a construction that ran to its end, with the arrays it holds.\<close>

definition constructed ::
  "Photometry \<Rightarrow> nat \<Rightarrow> pydict \<Rightarrow> AtmoGridPhot list \<Rightarrow> real list list \<Rightarrow> real list list
     \<Rightarrow> real list list \<Rightarrow> real list \<Rightarrow> bool" where
  "constructed self n d grids mags errs phases calibs \<longleftrightarrow>
     ndataset self = Some n \<and> 0 < n \<and> data self = Some d \<and> atmo_grid self = Some grids \<and>
     star self \<noteq> None \<and> length grids = n \<and> length phases = n \<and> length calibs = n \<and>
     map_of d ''mag'' = Some (map Arr mags) \<and> map_of d ''err'' = Some (map Arr errs) \<and>
     map_of d ''phase'' = Some (map Arr phases) \<and> map_of d ''calib'' = Some (map Flt calibs) \<and>
     map_of d ''ext'' = Some (map Flt (map meta_ext grids)) \<and>
     map length mags = map length phases \<and> map length errs = map length phases \<and>
     mag self = Some (concat mags) \<and> err self = Some (concat errs) \<and>
     ext self = Some (concat (map (\<lambda>i. replicate (length (phases ! i)) (meta_ext (grids ! i)))
                        [0..<n]))"

text \<open>The parameter vector of the docstrings.\<close>

definition example_par :: params where
  "example_par = ParList [10, 7200, 1, 300000, 1, 9 / 10, 8 / 100, 4000, 5000]"

text \<open>The slope in a result of \<open>Fit_linear\<close>.\<close>

definition slope_of :: "error + (real \<times> real \<times> real) \<Rightarrow> error + real" where
  "slope_of r = ebind r (\<lambda>(b, m, c). Inr m)"

text \<open>The sum \<open>trapz\<close> computes on arrays of one length, written as a recursion.\<close>

fun trapz_sum :: "real list \<Rightarrow> real list \<Rightarrow> real" where
  "trapz_sum (y0 # y1 # ys) (x0 # x1 # xs) =
     (x1 - x0) * (y1 + y0) / 2 + trapz_sum (y1 # ys) (x1 # xs)"
| "trapz_sum _ _ = 0"

section \<open>Properties of the numpy primitives\<close>

lemma ebind_Inr [simp]: "ebind (Inr v) k = k v"
  by (simp add: ebind_def)

lemma ebind_Inl [simp]: "ebind (Inl e) k = Inl e"
  by (simp add: ebind_def)

lemma np_mask_filter:
  "np_mask (map P xs) xs = Inr (filter P xs)"
proof -
  have "map snd (filter fst (zip (map P xs) xs)) = filter P xs"
    by (induction xs) auto
  then show ?thesis by (simp add: np_mask_def)
qed

lemma np_mask_zip:
  assumes "length ys = length xs"
  shows "np_mask (map P xs) ys = Inr (map snd (filter (\<lambda>(x, y). P x) (zip xs ys)))"
proof -
  from assms have "map snd (filter fst (zip (map P xs) ys))
      = map snd (filter (\<lambda>(x, y). P x) (zip xs ys))"
    by (induction xs ys rule: list_induct2') auto
  with assms show ?thesis by (simp add: np_mask_def)
qed

lemma filter_zip_fst:
  assumes "length ys = length xs"
  shows "zip (filter P xs) (map snd (filter (\<lambda>(x, y). P x) (zip xs ys)))
      = filter (\<lambda>(x, y). P x) (zip xs ys)"
  using assms by (induction xs ys rule: list_induct2') auto

section \<open>Resample\_spectrum: trimming\<close>

text \<open>
  C10. For a spectrum \<open>(w, f)\<close> of paired arrays and bounds \<open>wrange = [a, b]\<close>,
  \<open>Resample_spectrum\<close> keeps exactly the samples with \<open>a \<le> w[i] \<le> b\<close>, both ends included,
  in their order and with their values; with \<open>resample = None\<close> the kept samples are the
  result, and with a resampling step the resampling works on the kept samples.
\<close>

theorem Resample_spectrum_trim:
  assumes "length f = length w"
  shows "Resample_spectrum U w f (Some [a, b]) None
           = Inr (filter (\<lambda>x. a \<le> x \<and> x \<le> b) w,
                  map snd (filter (\<lambda>(x, y). a \<le> x \<and> x \<le> b) (zip w f)))
       \<and> zip (filter (\<lambda>x. a \<le> x \<and> x \<le> b) w)
             (map snd (filter (\<lambda>(x, y). a \<le> x \<and> x \<le> b) (zip w f)))
           = filter (\<lambda>(x, y). a \<le> x \<and> x \<le> b) (zip w f)
       \<and> Resample_spectrum U w f (Some [a, b]) (Some step)
           = Resample_spectrum U (filter (\<lambda>x. a \<le> x \<and> x \<le> b) w)
               (map snd (filter (\<lambda>(x, y). a \<le> x \<and> x \<le> b) (zip w f))) None (Some step)"
  using assms filter_zip_fst [OF assms, of "\<lambda>x. a \<le> x \<and> x \<le> b"]
  by (simp add: Resample_spectrum_def py_index_def np_mask_filter np_mask_zip)

section \<open>Resample\_spectrum: the worked example\<close>

lemma np_binop_same: "length xs = length ys \<Longrightarrow> np_binop g xs ys = Inr (map2 g xs ys)"
  by (simp add: np_binop_def)

text \<open>
  C9. With the axis interpolator of the specification, \<open>Resample_spectrum\<close> on the grid
  \<open>[0,1,2,3,4]\<close> with \<open>resample = 2\<close> returns the grid \<open>[0,2,4]\<close>, and the resampled fluxes
  are the input fluxes at those points.
\<close>

theorem Resample_spectrum_example:
  "Resample_spectrum (U\<lparr>Getaxispos_vector := spec_Getaxispos_vector\<rparr>)
       [0, 1, 2, 3, 4] [f0, f1, f2, f3, f4] None (Some 2)
     = Inr ([0, 2, 4], [f0, f2, f4])"
proof -
  let ?w = "[0, 1, 2, 3, 4] :: real list"
  have ar: "arange 0 5 2 = Inr [0, 2, 4]"
    by (simp add: arange_def upt_rec)
  have b0: "bracket ?w 0 = 0" and b2: "bracket ?w 2 = 2" and b4: "bracket ?w 4 = 3"
    by (simp_all add: bracket_def)
  have gap: "spec_Getaxispos_vector ?w [0, 2, 4] = Inr ([0, 0, 1], [0, 2, 3])"
    by (simp add: spec_Getaxispos_vector_def b0 b2 b4 sdiv_def)
  have t1: "np_take [f0, f1, f2, f3, f4] [0, 2, 3] = Inr [f0, f2, f3]"
    by (simp add: np_take_def py_index_def)
  have t2: "np_take [f0, f1, f2, f3, f4] [1, 3, 4] = Inr [f1, f3, f4]"
    by (simp add: np_take_def py_index_def)
  have ip: "interp_at [f0, f1, f2, f3, f4] [0, 0, 1] [0, 2, 3] = Inr [f0, f2, f4]"
    by (simp add: interp_at_def t1 t2 np_mul_def np_add_def np_binop_same)
  show ?thesis
    by (simp add: Resample_spectrum_def py_index_def ar gap ip)
qed

theorem Resample_spectrum_example_witness:
  "Resample_spectrum
       \<lparr>Fit_linear = spec_Fit_linear, Getaxispos_vector = spec_Getaxispos_vector,
        Mag_to_flux = (\<lambda>m e z. Inl TypeError), Flux_to_mag = (\<lambda>f e z. Inl TypeError),
        Asinh_to_flux = (\<lambda>m e z s. Inl TypeError)\<rparr>
       [0, 1, 2, 3, 4] [10, 20, 40, 80, 160] None (Some 2)
     = Inr ([0, 2, 4], [10, 40, 160])"
  using Resample_spectrum_example
    [of "\<lparr>Fit_linear = spec_Fit_linear, Getaxispos_vector = spec_Getaxispos_vector,
        Mag_to_flux = (\<lambda>m e z. Inl TypeError), Flux_to_mag = (\<lambda>f e z. Inl TypeError),
        Asinh_to_flux = (\<lambda>m e z s. Inl TypeError)\<rparr>" 10 20 40 80 160]
  by simp

theorem Resample_spectrum_trim_witness:
  "Resample_spectrum
       \<lparr>Fit_linear = spec_Fit_linear, Getaxispos_vector = spec_Getaxispos_vector,
        Mag_to_flux = (\<lambda>m e z. Inl TypeError), Flux_to_mag = (\<lambda>f e z. Inl TypeError),
        Asinh_to_flux = (\<lambda>m e z s. Inl TypeError)\<rparr>
       [0, 1, 2, 3, 4] [10, 20, 40, 80, 160] (Some [1, 3]) None
     = Inr ([1, 2, 3], [20, 40, 80])"
  using Resample_spectrum_trim
    [of "[10, 20, 40, 80, 160]" "[0, 1, 2, 3, 4]"
        "\<lparr>Fit_linear = spec_Fit_linear, Getaxispos_vector = spec_Getaxispos_vector,
        Mag_to_flux = (\<lambda>m e z. Inl TypeError), Flux_to_mag = (\<lambda>f e z. Inl TypeError),
        Asinh_to_flux = (\<lambda>m e z s. Inl TypeError)\<rparr>" 1 3]
  by simp

section \<open>Band\_integration on a flat spectrum\<close>

lemma trapz_terms:
  "length y = length x \<Longrightarrow>
     sum_list (map (\<lambda>t. t / 2) (map2 (*) (np_diff x) (map2 (+) (tl y) (butlast y))))
       = trapz_sum y x"
proof (induction y x rule: trapz_sum.induct)
  case (1 y0 y1 ys x0 x1 xs)
  then show ?case by (simp add: np_diff_def)
qed (simp_all add: np_diff_def)

lemma trapz_eq:
  assumes "length y = length x"
  shows "trapz y x = Inr (trapz_sum y x)"
proof -
  have "length (np_diff x) = length (map2 (+) (tl y) (butlast y))"
    using assms by (simp add: np_diff_def)
  then show ?thesis
    using trapz_terms [OF assms] by (simp add: trapz_def np_mul_def np_binop_same)
qed

lemma trapz_sum_scale:
  "trapz_sum (map (\<lambda>x. g x * L / x) w) w = L * trapz_sum (map (\<lambda>x. g x / x) w) w"
proof (induction w rule: induct_list012)
  case (3 x0 x1 xs)
  then show ?case by (simp add: algebra_simps add_divide_distrib)
qed simp_all

lemma trapz_sum_nonneg:
  "length ys = length xs \<Longrightarrow> sorted_wrt (<) xs \<Longrightarrow> \<forall>y\<in>set ys. 0 \<le> y
     \<Longrightarrow> 0 \<le> trapz_sum ys xs"
proof (induction ys xs rule: trapz_sum.induct)
  case (1 y0 y1 ys x0 x1 xs)
  then have "0 \<le> trapz_sum (y1 # ys) (x1 # xs)" by simp
  moreover have "0 \<le> (x1 - x0) * (y1 + y0) / 2" using 1 by simp
  ultimately show ?case by simp
qed simp_all

lemma trapz_sum_pos:
  "length ys = length xs \<Longrightarrow> sorted_wrt (<) xs \<Longrightarrow> \<forall>y\<in>set ys. 0 \<le> y \<Longrightarrow> 2 \<le> length xs
     \<Longrightarrow> \<exists>y\<in>set ys. 0 < y \<Longrightarrow> 0 < trapz_sum ys xs"
proof (induction ys xs rule: trapz_sum.induct)
  case (1 y0 y1 ys x0 x1 xs)
  have rest: "0 \<le> trapz_sum (y1 # ys) (x1 # xs)"
    using 1 by (intro trapz_sum_nonneg) simp_all
  have first: "0 \<le> (x1 - x0) * (y1 + y0) / 2" using 1 by simp
  show ?case
  proof (cases "0 < y0 \<or> 0 < y1")
    case True
    then have "0 < y1 + y0" using 1(4) by auto
    then have "0 < (x1 - x0) * (y1 + y0) / 2" using 1(3) by simp
    with rest show ?thesis by simp
  next
    case False
    with 1(6) obtain y where y: "y \<in> set ys" "0 < y" by auto
    then have "ys \<noteq> []" by auto
    then have "2 \<le> length (x1 # xs)" using 1(2) by (cases ys) auto
    moreover have "\<exists>y\<in>set (y1 # ys). 0 < y" using y by auto
    ultimately have "0 < trapz_sum (y1 # ys) (x1 # xs)"
      using 1 by (intro 1(1)) simp_all
    with first show ?thesis by simp
  qed
qed simp_all

lemma map2_map_self: "map2 g (map h w) w = map (\<lambda>x. g (h x) x) w"
  by (induction w) simp_all

lemma trapz2: "trapz [y0, y1] [x0, x1] = Inr ((x1 - x0) * (y1 + y0) / 2)"
  by (simp add: trapz_eq)

lemma trapz3:
  "trapz [y0, y1, y2] [x0, x1, x2]
     = Inr ((x1 - x0) * (y1 + y0) / 2 + (x2 - x1) * (y2 + y1) / 2)"
  by (simp add: trapz_eq)

text \<open>
  C8, as amended. In AB mode and in the frequency domain (\<open>nu = True\<close>), on a strictly
  increasing positive grid of at least two points and with a filter response that is not
  negative on the grid and positive at one grid point at least, a spectrum of constant
  flux density \<open>L\<close> integrates to \<open>L\<close>, whatever the filter is.
\<close>

theorem Band_integration_flat:
  assumes inc: "sorted_wrt (<) w" and pos: "\<forall>x\<in>set w. 0 < x" and two: "2 \<le> length w"
    and nn: "\<forall>x\<in>set w. 0 \<le> band_func x" and some: "\<exists>x\<in>set w. 0 < band_func x"
  shows "Band_integration c band_func w (replicate (length w) L) True True = Inr L"
proof -
  let ?fb = "map band_func w"
  have any: "np_any True w"
    using pos two by (cases w) (auto simp: np_any_def)
  have nz: "0 \<notin> set w" using pos by auto
  have a: "np_mul ?fb (replicate (length w) L) = Inr (map (\<lambda>x. band_func x * L) w)"
    by (simp add: np_mul_def np_binop_same map2_map_map zip_replicate2 o_def)
  have a': "np_div (map (\<lambda>x. band_func x * L) w) w = Inr (map (\<lambda>x. band_func x * L / x) w)"
    using nz by (simp add: np_div_def np_binop_same map2_map_self)
  have b: "np_div ?fb w = Inr (map (\<lambda>x. band_func x / x) w)"
    using nz by (simp add: np_div_def np_binop_same map2_map_self)
  let ?den = "trapz_sum (map (\<lambda>x. band_func x / x) w) w"
  have num: "trapz (map (\<lambda>x. band_func x * L / x) w) w = Inr (L * ?den)"
    by (simp add: trapz_eq trapz_sum_scale)
  have den: "trapz (map (\<lambda>x. band_func x / x) w) w = Inr ?den"
    by (simp add: trapz_eq)
  have "0 < ?den"
  proof (rule trapz_sum_pos)
    show "\<forall>y\<in>set (map (\<lambda>x. band_func x / x) w). 0 \<le> y"
      using pos nn by (auto intro!: divide_nonneg_pos)
    show "\<exists>y\<in>set (map (\<lambda>x. band_func x / x) w). 0 < y"
      using pos some by (auto intro!: divide_pos_pos)
  qed (use inc two in simp_all)
  then have "sdiv (L * ?den) ?den = Inr L"
    by (simp add: sdiv_def)
  then show ?thesis
    using any by (simp add: Band_integration_def a a' b num den)
qed

theorem Band_integration_flat_witness:
  "Band_integration 299792458 (\<lambda>x. if 2 \<le> x \<and> x \<le> 3 then 1 else 0) [1, 2, 3, 4] [5, 5, 5, 5]
     True True = Inr 5"
  using Band_integration_flat
    [of "[1, 2, 3, 4]" "\<lambda>x. if 2 \<le> x \<and> x \<le> 3 then 1 else 0" 299792458 5]
  by (simp add: numeral_eq_Suc)

text \<open>
  The claim as stated fails twice. A boxcar that lies inside the grid between two grid
  points is zero at every grid point, both integrals are zero and the ratio is not a
  number. In the wavelength domain (\<open>nu = False\<close>, the default) a flat unit spectrum over
  the grid \<open>[1, 2]\<close> with unit response integrates to \<open>2 / (10^10 * c)\<close>, not to 1.
\<close>

theorem Band_integration_flat_counterexample:
  "Band_integration 299792458 (\<lambda>x. if 12 / 10 \<le> x \<and> x \<le> 18 / 10 then 1 else 0)
       [1, 2, 3] [1, 1, 1] True True = Inl NotFinite
   \<and> Band_integration 299792458 (\<lambda>x. 1) [1, 2] [1, 1] False True
       = Inr (2 / (10 ^ 10 * 299792458))
   \<and> Band_integration 299792458 (\<lambda>x. 1) [1, 2] [1, 1] False True \<noteq> Inr 1"
proof -
  have 1: "Band_integration 299792458 (\<lambda>x. if 12 / 10 \<le> x \<and> x \<le> 18 / 10 then 1 else 0)
       [1, 2, 3] [1, 1, 1] True True = Inl NotFinite"
    by (simp add: Band_integration_def np_any_def np_mul_def np_div_def np_binop_same trapz3
          sdiv_def)
  have 2: "Band_integration 299792458 (\<lambda>x. 1) [1, 2] [1, 1] False True
       = Inr (2 / (10 ^ 10 * 299792458))"
    by (simp add: Band_integration_def np_any_def np_mul_def np_div_def np_binop_same trapz2
          sdiv_def)
  show ?thesis unfolding 2 using 1 by simp
qed


section \<open>The grouping of the datasets\<close>


lemma ebind_eq_Inr: "ebind m k = Inr r \<longleftrightarrow> (\<exists>v. m = Inr v \<and> k v = Inr r)"
  by (cases m) simp_all

lemma efold_snoc: "efold step (xs @ [x]) s = ebind (efold step xs s) (\<lambda>s'. step s' x)"
  by (induction xs arbitrary: s) (simp_all add: ebind_def split: sum.splits)

lemma dappend_other:
  "dappend d k v = Inr d' \<Longrightarrow> k' \<noteq> k \<Longrightarrow> map_of d' k' = map_of d k'"
  by (auto simp: dappend_def ebind_eq_Inr update_conv')

lemma first_same_Some:
  "first_same ids x js = Some j \<Longrightarrow>
     \<exists>pre post. js = pre @ j # post \<and> ids ! j = x \<and> (\<forall>k\<in>set pre. ids ! k \<noteq> x)"
proof (induction js)
  case Nil
  then show ?case by simp
next
  case (Cons a js)
  show ?case
  proof (cases "x = ids ! a")
    case True
    with Cons.prems have "j = a" by simp
    with True show ?thesis by (intro exI [of _ "[]"] exI [of _ js]) auto
  next
    case False
    with Cons obtain pre post where "js = pre @ j # post" "ids ! j = x" "\<forall>k\<in>set pre. ids ! k \<noteq> x"
      by auto
    with False show ?thesis
      by (intro exI [of _ "a # pre"] exI [of _ post]) auto
  qed
qed

lemma first_same_None: "first_same ids x js = None \<Longrightarrow> \<forall>k\<in>set js. ids ! k \<noteq> x"
  by (induction js) (auto split: if_splits)

lemma upt_split_at:
  assumes "[0..<n] = pre @ j # post"
  shows "pre = [0..<j]"
proof -
  have "length pre < n" using arg_cong [OF assms, of length] by simp
  have "j = [0..<n] ! length pre" using assms by (metis nth_append_length)
  then have j: "j = length pre" using \<open>length pre < n\<close> by simp
  have "pre = take (length pre) [0..<n]" using assms by simp
  also have "\<dots> = [0..<length pre]" using \<open>length pre < n\<close> by (simp add: take_upt)
  finally show ?thesis using j by simp
qed

lemma first_same_upt:
  assumes "i < length ids"
  shows "\<exists>j. first_same ids (ids ! i) [0..<i + 1] = Some j \<and> j \<le> i \<and> ids ! j = ids ! i
             \<and> (\<forall>k<j. ids ! k \<noteq> ids ! i)"
proof (cases "first_same ids (ids ! i) [0..<i + 1]")
  case None
  from first_same_None [OF this] have "ids ! i \<noteq> ids ! i" by auto
  then show ?thesis by simp
next
  case (Some j)
  from first_same_Some [OF this] obtain pre post where
    sp: "[0..<i + 1] = pre @ j # post" and eq: "ids ! j = ids ! i"
    and pre: "\<forall>k\<in>set pre. ids ! k \<noteq> ids ! i" by blast
  from upt_split_at [OF sp] have p: "pre = [0..<j]" .
  have "j \<in> set [0..<i + 1]" using sp by (metis in_set_conv_decomp)
  then have "j \<le> i" by auto
  with Some eq pre p show ?thesis by auto
qed

lemma py_index_nat_Inr: "py_index xs (int i) = Inr v \<Longrightarrow> i < length xs \<and> v = xs ! i"
  by (auto simp: py_index_def split: if_splits)

lemma py_index_nat: "i < length xs \<Longrightarrow> py_index xs (int i) = Inr (xs ! i)"
  by (simp add: py_index_def)

lemma dget_Inr: "dget d k = Inr v \<longleftrightarrow> map_of d k = Some v"
  by (simp add: dget_def split: option.splits)

lemma Setup_step_id:
  assumes step: "Setup_step U grids hm (ea, d, grp, loc) i = Inr (ea', d', grp', loc')"
    and ids: "map_of d ''id'' = Some ids"
  shows "map_of d' ''id'' = Some ids \<and> i < length ids
       \<and> grp' = (case first_same ids (ids ! i) [0..<i + 1] of None \<Rightarrow> grp | Some j \<Rightarrow> grp[i := j])"
proof -
  from step obtain v1 v2 v3 d1 d2 d3 idl idi where
    a1: "dappend d ''ext'' v1 = Inr d1"
    and a2: "dappend d1 ''flux'' v2 = Inr d2"
    and a3: "dappend d2 ''flux_err'' v3 = Inr d3"
    and a4: "dget d3 ''id'' = Inr idl"
    and a5: "py_index idl (int i) = Inr idi"
    and d': "d' = d3"
    and g: "grp' = (case first_same idl idi [0..<i + 1] of None \<Rightarrow> grp | Some j \<Rightarrow> grp[i := j])"
    unfolding Setup_step_def by (auto simp: ebind_eq_Inr)
  have "map_of d3 ''id'' = map_of d ''id''"
    using dappend_other [OF a1, of "''id''"] dappend_other [OF a2, of "''id''"]
      dappend_other [OF a3, of "''id''"] by simp
  with a4 ids have idl: "idl = ids" by (simp add: dget_Inr)
  from py_index_nat_Inr [OF a5] idl have "i < length ids" "idi = ids ! i" by simp_all
  with g idl d' \<open>map_of d3 ''id'' = map_of d ''id''\<close> ids show ?thesis by simp
qed

lemma Setup_loop_grouped:
  assumes "k \<le> n" and "map_of d0 ''id'' = Some ids"
    and "efold (Setup_step U grids hm) [0..<k] (ea0, d0, [0..<n], loc0) = Inr (ea, d, grp, loc)"
  shows "map_of d ''id'' = Some ids \<and> grouped ids n k grp"
  using assms
proof (induction k arbitrary: ea d grp loc)
  case 0
  then show ?case by (auto simp: grouped_def)
next
  case (Suc k)
  from Suc.prems(3) obtain st where
    pre: "efold (Setup_step U grids hm) [0..<k] (ea0, d0, [0..<n], loc0) = Inr st"
    and last: "Setup_step U grids hm st k = Inr (ea, d, grp, loc)"
    by (auto simp: efold_snoc ebind_eq_Inr)
  obtain ea1 d1 grp1 loc1 where st: "st = (ea1, d1, grp1, loc1)" by (cases st) auto
  from Suc.IH [OF _ Suc.prems(2) pre [unfolded st]] Suc.prems(1)
  have d1: "map_of d1 ''id'' = Some ids" and g1: "grouped ids n k grp1" by simp_all
  from Setup_step_id [OF last [unfolded st] d1]
  have d: "map_of d ''id'' = Some ids" and k: "k < length ids"
    and grp: "grp = (case first_same ids (ids ! k) [0..<k + 1] of None \<Rightarrow> grp1 | Some j \<Rightarrow> grp1[k := j])"
    by simp_all
  from first_same_upt [OF k] obtain j where
    j: "first_same ids (ids ! k) [0..<k + 1] = Some j" "j \<le> k" "ids ! j = ids ! k"
       "\<forall>m<j. ids ! m \<noteq> ids ! k" by blast
  from grp j have grp': "grp = grp1[k := j]" by simp
  have "grouped ids n (Suc k) grp"
    unfolding grouped_def
  proof (intro conjI allI impI)
    show "length grp = n" using g1 grp' by (simp add: grouped_def)
  next
    fix i assume "i < Suc k"
    show "grp ! i \<le> i"
      using g1 grp' j \<open>i < Suc k\<close> Suc.prems(1)
      by (cases "i = k") (auto simp: grouped_def)
    show "ids ! (grp ! i) = ids ! i"
      using g1 grp' j \<open>i < Suc k\<close> Suc.prems(1)
      by (cases "i = k") (auto simp: grouped_def)
    fix m assume "m < grp ! i"
    then show "ids ! m \<noteq> ids ! i"
      using g1 grp' j \<open>i < Suc k\<close> Suc.prems(1)
      by (cases "i = k") (auto simp: grouped_def)
  next
    fix i assume "Suc k \<le> i \<and> i < n"
    then show "grp ! i = i"
      using g1 grp' by (auto simp: grouped_def)
  qed
  with d show ?case by simp
qed

lemma attr_Inr: "attr name v = Inr x \<longleftrightarrow> v = Some x"
  by (simp add: attr_def split: option.splits)

lemma Setup_Inr:
  assumes "Setup U s = Inr self"
  shows "\<exists>d0 n grids ea d grp loc dinit hm.
           data s = Some d0 \<and> ndataset s = Some n \<and> atmo_grid s = Some grids
         \<and> map_of dinit ''id'' = map_of d0 ''id''
         \<and> efold (Setup_step U grids hm) [0..<n] ([], dinit, [0..<n], None)
             = Inr (ea, d, grp, loc)
         \<and> data self = Some d \<and> grouping self = Some grp \<and> ndataset self = Some n
         \<and> atmo_grid self = Some grids \<and> star self = star s"
proof -
  let ?hm = "\<lambda>d0. map_of (AList.update ''ext'' [] d0) ''mag'' \<noteq> None"
  let ?dinit = "\<lambda>d0. if ?hm d0
       then AList.update ''flux_err'' [] (AList.update ''flux'' [] (AList.update ''ext'' [] d0))
       else AList.update ''err'' [] (AList.update ''mag'' [] (AList.update ''ext'' [] d0))"
  from assms obtain d0 n grids ea d grp loc where
    s: "data s = Some d0" "ndataset s = Some n" "atmo_grid s = Some grids"
    and loop: "efold (Setup_step U grids (?hm d0)) [0..<n] ([], ?dinit d0, [0..<n], None)
        = Inr (ea, d, grp, loc)"
    and self: "data self = Some d" "grouping self = Some grp" "ndataset self = Some n"
      "atmo_grid self = Some grids" "star self = star s"
    unfolding Setup_def Let_def by (auto simp: ebind_eq_Inr attr_Inr)
  have "map_of (?dinit d0) ''id'' = map_of d0 ''id''" by (simp add: update_conv')
  with s loop self show ?thesis by blast
qed

lemma Read_data_attrs:
  "Read_data E new_Photometry fln = Inr s \<Longrightarrow>
     ndataset s = None \<and> star s = None \<and> atmo_grid s = None \<and> grouping s = None \<and> mag s = None
     \<and> err s = None \<and> ext s = None \<and> (\<exists>d. data s = Some d)"
  by (auto simp: Read_data_def ebind_eq_Inr new_Photometry_def)

lemma Read_atmo_attrs:
  "Read_atmo E s0 fln = Inr s \<Longrightarrow>
     ndataset s = ndataset s0 \<and> star s = star s0 \<and> data s = data s0 \<and> grouping s = grouping s0
     \<and> mag s = mag s0 \<and> err s = err s0 \<and> ext s = ext s0 \<and> (\<exists>g. atmo_grid s = Some g)"
  by (auto simp: Read_atmo_def ebind_eq_Inr)

lemma init_grouping_aux:
  assumes init: "Photometry_init U E atmo_fln data_fln nd rd = Inr self"
    and n: "ndataset self = Some n" and d: "data self = Some d" and ids: "map_of d ''id'' = Some ids"
  shows "\<exists>grp. grouping self = Some grp \<and> length grp = n
           \<and> (\<forall>i<n. grp ! i \<le> i \<and> ids ! (grp ! i) = ids ! i
                  \<and> (\<forall>j<grp ! i. ids ! j \<noteq> ids ! i)
                  \<and> ((\<forall>j<i. ids ! j \<noteq> ids ! i) \<longrightarrow> grp ! i = i))"
proof -
  from init obtain s1 s2 and grids :: "AtmoGridPhot list" and mags :: "item list" where
    r1: "Read_data E new_Photometry data_fln = Inr s1"
    and r2: "Read_atmo E s1 atmo_fln = Inr s2"
    and rest: "(if length grids \<noteq> length mags then Inr s2
         else ebind (Init_lightcurve E (s2\<lparr>ndataset := Some (length grids)\<rparr>) nd rd) (Setup U))
        = Inr self"
    unfolding Photometry_init_def by (auto simp: ebind_eq_Inr)
  have "ndataset s2 = None" using Read_data_attrs [OF r1] Read_atmo_attrs [OF r2] by simp
  with rest n obtain s3 where s3: "Setup U s3 = Inr self"
    by (auto simp: ebind_eq_Inr split: if_splits)
  from Setup_Inr [OF s3] obtain d0 m grids' ea d' grp loc dinit hm where
    a: "map_of dinit ''id'' = map_of d0 ''id''"
    and loop: "efold (Setup_step U grids' hm) [0..<m] ([], dinit, [0..<m], None)
             = Inr (ea, d', grp, loc)"
    and self: "data self = Some d'" "grouping self = Some grp" "ndataset self = Some m"
    by blast
  from self n d have mn: "m = n" and dd: "d' = d" by simp_all
  obtain ids0 where ids0: "map_of dinit ''id'' = Some ids0"
  proof (cases "map_of dinit ''id''")
    case None
    show ?thesis
    proof (cases m)
      case 0
      with loop have "d' = dinit" by simp
      with None ids dd show ?thesis by simp
    next
      case (Suc k)
      then have "[0..<m] = 0 # [1..<m]" by (simp add: upt_rec)
      with loop obtain st where "Setup_step U grids' hm ([], dinit, [0..<m], None) 0 = Inr st"
        by (auto simp: ebind_eq_Inr)
      then obtain v1 v2 v3 d1 d2 d3 idl where
        a1: "dappend dinit ''ext'' v1 = Inr d1"
        and a2: "dappend d1 ''flux'' v2 = Inr d2"
        and a3: "dappend d2 ''flux_err'' v3 = Inr d3"
        and a4: "dget d3 ''id'' = Inr idl"
        unfolding Setup_step_def by (auto simp: ebind_eq_Inr)
      have "map_of d3 ''id'' = map_of dinit ''id''"
        using dappend_other [OF a1, of "''id''"] dappend_other [OF a2, of "''id''"]
          dappend_other [OF a3, of "''id''"] by simp
      with a4 None show ?thesis by (simp add: dget_Inr)
    qed
  qed simp
  from Setup_loop_grouped [OF le_refl ids0 loop] dd ids
  have same: "ids0 = ids" and g: "grouped ids0 m m grp" by simp_all
  from g same mn have len: "length grp = n"
    and props: "\<forall>i<n. grp ! i \<le> i \<and> ids ! (grp ! i) = ids ! i \<and> (\<forall>j<grp ! i. ids ! j \<noteq> ids ! i)"
    by (simp_all add: grouped_def)
  have "\<forall>i<n. (\<forall>j<i. ids ! j \<noteq> ids ! i) \<longrightarrow> grp ! i = i"
  proof (intro allI impI)
    fix i assume i: "i < n" and uniq: "\<forall>j<i. ids ! j \<noteq> ids ! i"
    from props i have "grp ! i \<le> i" "ids ! (grp ! i) = ids ! i" by simp_all
    with uniq show "grp ! i = i" by (metis le_neq_implies_less)
  qed
  with self(2) len props show ?thesis by simp
qed

subsection \<open>The example instances\<close>


lemma split_record: "split (record_line ''V'') = [''V'', ''0'', ''1'', ''2'', ''0.0'', ''0.01'', ''lc.txt'']"
  by (simp add: split_def record_line_def is_space_def)

lemma frac_id: "0 \<le> x \<Longrightarrow> x < 1 \<Longrightarrow> frac x = x"
  by (simp add: frac_eq)


lemma split_grid: "split (grid_line ''V'') = [''V'', ''V.h5'']" "split (grid_line ''B'') = [''B'', ''B.h5'']"
  by (simp_all add: split_def grid_line_def is_space_def)

lemma split_recordB: "split (record_line ''B'') = [''B'', ''0'', ''1'', ''2'', ''0.0'', ''0.01'', ''lc.txt'']"
  by (simp add: split_def record_line_def is_space_def)

lemma is_record_lines: "is_record (record_line ''V'') = Inr True" "is_record (record_line ''B'') = Inr True"
  "is_record (grid_line ''V'') = Inr True" "is_record (grid_line ''B'') = Inr True"
  by (simp_all add: is_record_def record_line_def grid_line_def)


lemma ex_fields:
  "readlines (example_Env dl al) ''data.txt'' = Inr dl"
  "readlines (example_Env dl al) ''atmo.txt'' = Inr al"
  "py_int (example_Env dl al) ''0'' = Inr 0"
  "py_int (example_Env dl al) ''1'' = Inr 1"
  "py_int (example_Env dl al) ''2'' = Inr 2"
  "py_float (example_Env dl al) ''0.0'' = Inr 0"
  "py_float (example_Env dl al) ''0.01'' = Inr (1 / 100)"
  "tables (example_Env dl al) ''lc.txt'' = Inr [[1 / 4, 20, 1 / 10], [3 / 4, 21, 1 / 10]]"
  "ReadHDF5 (example_Env dl al) ''V.h5'' = Inr \<lparr>meta_ext = 1, meta_zp = 1, flux0 = 1, table = 0\<rparr>"
  "ReadHDF5 (example_Env dl al) ''B.h5'' = Inr \<lparr>meta_ext = 2, meta_zp = 1, flux0 = 1, table = 1\<rparr>"
  "Star_init (example_Env dl al) n r = Inr \<lparr>ndiv = n, read_primitives = r, surface = None\<rparr>"
  "Star_Make_surface (example_Env dl al) st vs = Inr (st\<lparr>surface := Some vs\<rparr>)"
  "Star_Mag_flux (example_Env dl al) st p g = Inr (20 + real (table g) + p)"
  "Star_Keff (example_Env dl al) st p g = Inr (300 * sin (2 * pi * p) + 7)"
  by (simp_all add: example_Env_def)

lemma ex_loadtxt: "loadtxt (example_Env dl al) ''lc.txt'' [0, 1, 2] = Inr [[1 / 4, 3 / 4], [20, 21], [1 / 10, 1 / 10]]"
  by (simp add: loadtxt_def ex_fields py_index_def)


lemmas ex_eval = Read_data_def Read_data_line_def is_record_lines split_record split_recordB
  read_record_def ex_loadtxt ex_fields py_index_def dappend_def dget_def empty_data_def frac_id
  Read_atmo_def Read_atmo_line_def split_grid

lemma ex_Read_data3:
  "Read_data (example_Env [record_line ''V'', record_line ''V'', record_line ''B''] al)
     new_Photometry ''data.txt''
   = Inr (new_Photometry\<lparr>data := Some
            [(''mag'', [Arr [20, 21], Arr [20, 21], Arr [20, 21]]),
             (''phase'', [Arr [1 / 4, 3 / 4], Arr [1 / 4, 3 / 4], Arr [1 / 4, 3 / 4]]),
             (''err'', [Arr [1 / 10, 1 / 10], Arr [1 / 10, 1 / 10], Arr [1 / 10, 1 / 10]]),
             (''calib'', [Flt (1 / 100), Flt (1 / 100), Flt (1 / 100)]),
             (''fln'', [Str ''lc.txt'', Str ''lc.txt'', Str ''lc.txt'']),
             (''id'', [Str ''V'', Str ''V'', Str ''B'']),
             (''softening'', [Flt 0, Flt 0, Flt 0])]\<rparr>)"
  by (simp add: ex_eval)

lemma ex_Read_atmo3:
  "Read_atmo (example_Env dl [grid_line ''V'', grid_line ''V'', grid_line ''B'']) s ''atmo.txt''
   = Inr (s\<lparr>atmo_grid := Some
        [\<lparr>meta_ext = 1, meta_zp = 1, flux0 = 1, table = 0\<rparr>,
         \<lparr>meta_ext = 1, meta_zp = 1, flux0 = 1, table = 0\<rparr>,
         \<lparr>meta_ext = 2, meta_zp = 1, flux0 = 1, table = 1\<rparr>]\<rparr>)"
  by (simp add: ex_eval)


text \<open>
  C4. In a constructed instance with \<open>n\<close> datasets, \<open>grouping[i]\<close> is the smallest index
  \<open>j \<le> i\<close> whose dataset has the id of dataset \<open>i\<close>, and it is \<open>i\<close> when no earlier dataset
  has that id. The witness is the instance of three datasets with the ids V, V and B, whose
  grouping is \<open>[0, 0, 2]\<close>.
\<close>

theorem init_grouping:
  assumes "Photometry_init U E atmo_fln data_fln nd rd = Inr self"
    and "ndataset self = Some n" and "data self = Some d" and "map_of d ''id'' = Some ids"
  shows "\<exists>grp. grouping self = Some grp \<and> length grp = n
           \<and> (\<forall>i<n. grp ! i \<le> i \<and> ids ! (grp ! i) = ids ! i
                  \<and> (\<forall>j<grp ! i. ids ! j \<noteq> ids ! i)
                  \<and> ((\<forall>j<i. ids ! j \<noteq> ids ! i) \<longrightarrow> grp ! i = i))"
  using assms by (rule init_grouping_aux)

theorem init_grouping_witness:
  "\<exists>self. Photometry_init example_Utils
       (example_Env [record_line ''V'', record_line ''V'', record_line ''B'']
          [grid_line ''V'', grid_line ''V'', grid_line ''B''])
       ''atmo.txt'' ''data.txt'' 5 True = Inr self
     \<and> ndataset self = Some 3
     \<and> (\<exists>d. data self = Some d \<and> map_of d ''id'' = Some [Str ''V'', Str ''V'', Str ''B''])
     \<and> grouping self = Some [0, 0, 2]"
proof -
  let ?E = "example_Env [record_line ''V'', record_line ''V'', record_line ''B'']
          [grid_line ''V'', grid_line ''V'', grid_line ''B'']"
  obtain self where init: "Photometry_init example_Utils ?E ''atmo.txt'' ''data.txt'' 5 True = Inr self"
    and n: "ndataset self = Some 3"
    and d: "\<exists>d. data self = Some d \<and> map_of d ''id'' = Some [Str ''V'', Str ''V'', Str ''B'']"
    apply (simp add: Photometry_init_def ex_Read_data3 ex_Read_atmo3 attr_def dget_def
        Init_lightcurve_def ex_fields)
    apply (simp add: Setup_def attr_def upt_rec Setup_step_def darr_def dflt_def dget_def
        py_index_def as_arr_def as_flt_def dappend_def example_Utils_def spec_Mag_to_flux_def
        darrs_def hstack_def new_Photometry_def)
    done
  from d obtain d where d: "data self = Some d" "map_of d ''id'' = Some [Str ''V'', Str ''V'', Str ''B'']"
    by blast
  from init_grouping [OF init n d] obtain grp where
    g: "grouping self = Some grp" "length grp = 3"
    and p: "\<forall>i<3. grp ! i \<le> i \<and> [Str ''V'', Str ''V'', Str ''B''] ! (grp ! i) = [Str ''V'', Str ''V'', Str ''B''] ! i
                  \<and> (\<forall>j<grp ! i. [Str ''V'', Str ''V'', Str ''B''] ! j \<noteq> [Str ''V'', Str ''V'', Str ''B''] ! i)
                  \<and> ((\<forall>j<i. [Str ''V'', Str ''V'', Str ''B''] ! j \<noteq> [Str ''V'', Str ''V'', Str ''B''] ! i) \<longrightarrow> grp ! i = i)"
    by blast
  from p have "grp ! 0 = 0" by auto
  moreover from p have "grp ! 1 \<le> 1" "\<forall>j<grp ! 1. [Str ''V'', Str ''V'', Str ''B''] ! j \<noteq> Str ''V''"
    by (auto dest: spec [of _ 1])
  then have "grp ! 1 = 0" by (cases "grp ! 1") auto
  moreover from p have "(\<forall>j<2. [Str ''V'', Str ''V'', Str ''B''] ! j \<noteq> [Str ''V'', Str ''V'', Str ''B''] ! 2) \<longrightarrow> grp ! 2 = 2"
    by (auto dest: spec [of _ 2])
  then have "grp ! 2 = 2" by (auto simp: less_Suc_eq numeral_2_eq_2)
  ultimately have "grp = [0, 0, 2]"
    using g(2) by (auto simp: list_eq_iff_nth_eq less_Suc_eq numeral_3_eq_3 numeral_2_eq_2)
  with init n d g show ?thesis by auto
qed

section \<open>Reading a record in the flux format\<close>


lemma split_flux: "split (flux_line ''V'') = [''V'', ''0'', ''1'', ''2'', ''0.0'', ''0.01'', ''0.0'', ''flux'', ''lc.txt'']"
  by (simp add: split_def flux_line_def is_space_def)

lemma is_record_flux: "is_record (flux_line ''V'') = Inr True"
  by (simp add: is_record_def flux_line_def)

lemma dappend_keys:
  "dappend d k v = Inr d' \<Longrightarrow> map_of d' k' = None \<longleftrightarrow> map_of d k' = None"
  by (auto simp: dappend_def ebind_eq_Inr update_conv' dget_Inr split: if_splits)

lemma read_record_keys:
  assumes "read_record E d tmp vk ek hs = Inr d'"
  shows "map_of d vk \<noteq> None \<and> (map_of d' k = None \<longleftrightarrow> map_of d k = None)"
proof -
  from assms obtain v1 v2 v3 v4 v5 v6 v7 d1 d2 d3 d4 d5 d6 where
    a: "dappend d ''phase'' v1 = Inr d1" "dappend d1 vk v2 = Inr d2" "dappend d2 ek v3 = Inr d3"
       "dappend d3 ''calib'' v4 = Inr d4" "dappend d4 ''fln'' v5 = Inr d5"
       "dappend d5 ''id'' v6 = Inr d6" "dappend d6 ''softening'' v7 = Inr d'"
    unfolding read_record_def by (auto simp: ebind_eq_Inr)
  have "map_of d1 vk \<noteq> None" using a(2) by (auto simp: dappend_def ebind_eq_Inr dget_Inr)
  then have "map_of d vk \<noteq> None" using dappend_keys [OF a(1)] by simp
  moreover have "map_of d' k = None \<longleftrightarrow> map_of d k = None"
    using a by (simp add: dappend_keys)
  ultimately show ?thesis by simp
qed

lemma Read_data_line_keys:
  assumes "Read_data_line E d line = Inr d'"
  shows "map_of d' k = None \<longleftrightarrow> map_of d k = None"
  using assms unfolding Read_data_line_def Let_def
  by (auto simp: ebind_eq_Inr split: if_splits dest: read_record_keys)

lemma Read_data_line_flux:
  assumes "is_record line = Inr True" "length (split line) = 9" "split line ! 7 = ''flux''"
    and "map_of d ''flux'' = None"
  shows "\<exists>e. Read_data_line E d line = Inl e"
proof (cases "Read_data_line E d line")
  case (Inr d')
  with assms(1-3) have "split line ! 7 = ''mag'' \<and> read_record E d (split line) ''mag'' ''err'' True = Inr d'
      \<or> read_record E d (split line) ''flux'' ''flux_err'' True = Inr d'"
    unfolding Read_data_line_def Let_def by (auto split: if_splits)
  with assms(3) have "read_record E d (split line) ''flux'' ''flux_err'' True = Inr d'" by auto
  from read_record_keys [OF this] assms(4) show ?thesis by simp
qed auto

lemma efold_fails:
  assumes "x \<in> set xs" and inv: "\<And>s y s'. P s \<Longrightarrow> step s y = Inr s' \<Longrightarrow> P s'"
    and bad: "\<And>s. P s \<Longrightarrow> \<exists>e. step s x = Inl e" and "P s0"
  shows "\<exists>e. efold step xs s0 = Inl e"
  using assms(1,4)
proof (induction xs arbitrary: s0)
  case Nil
  then show ?case by simp
next
  case (Cons y ys)
  show ?case
  proof (cases "step s0 y")
    case (Inl e)
    then show ?thesis by simp
  next
    case (Inr s1)
    from inv [OF Cons.prems(2) Inr] have P1: "P s1" .
    from Cons.prems(1) have "y = x \<or> x \<in> set ys" by auto
    then show ?thesis
    proof
      assume "y = x"
      with bad [OF Cons.prems(2)] Inr show ?thesis by simp
    next
      assume "x \<in> set ys"
      from Cons.IH [OF this P1] Inr show ?thesis by simp
    qed
  qed
qed

text \<open>
  C6. A data file that holds a 9-column record with the flag \<open>flux\<close> cannot be read:
  \<open>_Read_data\<close> creates the dictionary without the keys \<open>flux\<close> and \<open>flux_err\<close>, no record
  adds a key, and the record with the flag appends to \<open>self.data['flux']\<close>. Whatever the
  files hold, \<open>_Read_data\<close> and with it the constructor end in an exception.
\<close>

theorem Read_data_flux_fails:
  assumes "readlines E data_fln = Inr lines" and "line \<in> set lines"
    and "is_record line = Inr True" and "length (split line) = 9"
    and "split line ! 7 = ''flux''"
  shows "\<exists>e. Read_data E self data_fln = Inl e
           \<and> Photometry_init U E atmo_fln data_fln nd rd = Inl e"
proof -
  have "\<exists>e. efold (Read_data_line E) lines empty_data = Inl e"
  proof (rule efold_fails [where P = "\<lambda>d. map_of d ''flux'' = None", OF assms(2)])
    show "map_of empty_data ''flux'' = None" by (simp add: empty_data_def)
  next
    fix s y s' assume "map_of s ''flux'' = None" "Read_data_line E s y = Inr s'"
    then show "map_of s' ''flux'' = None" using Read_data_line_keys by blast
  next
    fix s :: pydict assume "map_of s ''flux'' = None"
    then show "\<exists>e. Read_data_line E s line = Inl e"
      using Read_data_line_flux [OF assms(3-5)] by blast
  qed
  then obtain e where e: "efold (Read_data_line E) lines empty_data = Inl e" by blast
  have "\<And>self. Read_data E self data_fln = Inl e"
    using assms(1) e by (simp add: Read_data_def)
  then show ?thesis by (simp add: Photometry_init_def)
qed

theorem Read_data_flux_fails_witness:
  "\<exists>e. Read_data (example_Env [record_line ''V'', flux_line ''V''] [grid_line ''V'', grid_line ''V''])
          new_Photometry ''data.txt'' = Inl e
     \<and> Photometry_init example_Utils
          (example_Env [record_line ''V'', flux_line ''V''] [grid_line ''V'', grid_line ''V''])
          ''atmo.txt'' ''data.txt'' 5 True = Inl e"
  using Read_data_flux_fails
    [of "example_Env [record_line ''V'', flux_line ''V''] [grid_line ''V'', grid_line ''V'']"
        "''data.txt''" "[record_line ''V'', flux_line ''V'']" "flux_line ''V''"
        new_Photometry example_Utils "''atmo.txt''" 5 True]
  by (simp add: ex_fields is_record_flux split_flux)

text \<open>On a file with one such record the exception is \<open>KeyError: 'flux'\<close>.\<close>

lemma Read_data_flux_example:
  "Read_data (example_Env [flux_line ''V''] al) new_Photometry ''data.txt'' = Inl (KeyError ''flux'')"
  by (simp add: ex_eval is_record_flux split_flux)

section \<open>The constructor on mismatched counts\<close>

text \<open>
  C3, as amended. When the atmosphere file and the data file are read and the number of
  atmosphere grids differs from the number of datasets, the constructor raises nothing: it
  returns the instance as it is after the two reads, with \<open>data\<close> and \<open>atmo_grid\<close> set
  and \<open>ndataset\<close>, \<open>star\<close>, \<open>grouping\<close> and the aggregated arrays unset. \<open>Get_flux\<close> and
  \<open>Calc_chi2\<close> on that instance raise AttributeError.
\<close>

theorem init_mismatch:
  assumes "Read_data E new_Photometry data_fln = Inr s1"
    and "Read_atmo E s1 atmo_fln = Inr s2"
    and "atmo_grid s2 = Some grids" and "data s2 = Some d" and "map_of d ''mag'' = Some mags"
    and "length grids \<noteq> length mags"
  shows "Photometry_init U E atmo_fln data_fln nd rd = Inr s2
       \<and> ndataset s2 = None \<and> star s2 = None \<and> grouping s2 = None \<and> mag s2 = None
       \<and> Get_flux U E s2 par flat DM AV nsamples = Inl (AttributeError ''star'')
       \<and> Calc_chi2 U E s2 par offset_free DM AV nsamples influx full_output
           = Inl (AttributeError ''star'')"
proof -
  have init: "Photometry_init U E atmo_fln data_fln nd rd = Inr s2"
    using assms by (simp add: Photometry_init_def attr_def dget_def)
  have none: "ndataset s2 = None" "star s2 = None" "grouping s2 = None" "mag s2 = None"
    using Read_data_attrs [OF assms(1)] Read_atmo_attrs [OF assms(2)] by simp_all
  have gf: "\<And>flat DM AV. Get_flux U E s2 par flat DM AV nsamples = Inl (AttributeError ''star'')"
    using none(2) by (simp add: Get_flux_def Make_surface_def attr_def)
  have "Calc_chi2 U E s2 par offset_free DM AV nsamples influx full_output
           = Inl (AttributeError ''star'')"
    by (simp add: Calc_chi2_def gf)
  with init none gf show ?thesis by simp
qed

text \<open>The claim as stated fails: with one dataset and two atmosphere grids the constructor
  returns an instance.\<close>

theorem init_mismatch_counterexample:
  "\<exists>self. Photometry_init example_Utils
       (example_Env [record_line ''V''] [grid_line ''V'', grid_line ''B''])
       ''atmo.txt'' ''data.txt'' 5 True = Inr self
     \<and> data self \<noteq> None \<and> atmo_grid self \<noteq> None \<and> ndataset self = None"
  by (simp add: Photometry_init_def ex_eval attr_def new_Photometry_def)

theorem init_mismatch_witness:
  "\<exists>self. Photometry_init example_Utils
       (example_Env [record_line ''V'', record_line ''B''] [grid_line ''V''])
       ''atmo.txt'' ''data.txt'' 5 True = Inr self
     \<and> ndataset self = None \<and> star self = None \<and> grouping self = None \<and> mag self = None
     \<and> Get_flux example_Utils
          (example_Env [record_line ''V'', record_line ''B''] [grid_line ''V''])
          self (ParList [10, 7200, 1, 300000, 1, 9 / 10, 8 / 100, 4000, 5000]) False None None None
          = Inl (AttributeError ''star'')
     \<and> Calc_chi2 example_Utils
          (example_Env [record_line ''V'', record_line ''B''] [grid_line ''V''])
          self (ParList [10, 7200, 1, 300000, 1, 9 / 10, 8 / 100, 4000, 5000]) 1 (Some 0) (Some 0)
          None False False = Inl (AttributeError ''star'')"
proof -
  let ?E = "example_Env [record_line ''V'', record_line ''B''] [grid_line ''V'']"
  obtain s1 where s1: "Read_data ?E new_Photometry ''data.txt'' = Inr s1"
    and d1: "\<exists>d mags. data s1 = Some d \<and> map_of d ''mag'' = Some mags \<and> length mags = 2"
    by (simp add: ex_eval new_Photometry_def)
  obtain s2 where s2: "Read_atmo ?E s1 ''atmo.txt'' = Inr s2"
    and g2: "\<exists>grids. atmo_grid s2 = Some grids \<and> length grids = 1" and dd: "data s2 = data s1"
    by (simp add: ex_eval)
  from d1 dd obtain d mags where d: "data s2 = Some d" "map_of d ''mag'' = Some mags" "length mags = 2"
    by auto
  from g2 obtain grids where g: "atmo_grid s2 = Some grids" "length grids = 1" by auto
  have "length grids \<noteq> length mags" using d g by simp
  from init_mismatch [OF s1 s2 g(1) d(1,2) this] show ?thesis by blast
qed


section \<open>Get\_Keff\<close>


lemma emap_all_Inr:
  "(\<And>x. x \<in> set xs \<Longrightarrow> f x = Inr (h x)) \<Longrightarrow> emap f xs = Inr (map h xs)"
  by (induction xs) simp_all

lemma emap_map: "emap f (map h xs) = emap (f \<circ> h) xs"
  by (induction xs) simp_all

lemma wsum_ones: "length v = n \<Longrightarrow> wsum (replicate n 1) v = sum_list v"
proof (induction v arbitrary: n)
  case Nil
  then show ?case by (simp add: wsum_def)
next
  case (Cons a v)
  then obtain m where "n = Suc m" "length v = m" by (cases n) auto
  with Cons.IH [of m] show ?case by (simp add: wsum_def)
qed

lemma sin_reflect:
  assumes "k \<le> n" "0 < n"
  shows "sin (2 * pi * (real (n - k) / real n)) = - sin (2 * pi * (real k / real n))"
proof -
  have "2 * pi * (real (n - k) / real n) = 2 * pi - 2 * pi * (real k / real n)"
    using assms by (simp add: of_nat_diff field_simps)
  then show ?thesis by (simp add: sin_diff)
qed

lemma sum_antisymmetric:
  fixes f :: "nat \<Rightarrow> real"
  assumes f0: "f 0 = 0" and refl: "\<And>k. 0 < k \<Longrightarrow> k < n \<Longrightarrow> f (n - k) = - f k"
  shows "(\<Sum>k<n. f k) = 0"
proof (cases n)
  case 0
  then show ?thesis by simp
next
  case (Suc m)
  have "(\<Sum>k<Suc m. f k) = f 0 + (\<Sum>k<m. f (Suc k))"
    by (rule sum.lessThan_Suc_shift)
  with f0 Suc have a: "(\<Sum>k<n. f k) = (\<Sum>k<m. f (Suc k))" by simp
  have "(\<Sum>k<m. f (Suc k)) = (\<Sum>k<m. f (Suc (m - Suc k)))"
    by (rule sum.nat_diff_reindex [symmetric])
  also have "\<dots> = (\<Sum>k<m. - f (Suc k))"
  proof (rule sum.cong)
    fix k assume "k \<in> {..<m}"
    then have k: "k < m" by simp
    then have "Suc (m - Suc k) = n - Suc k" using Suc by simp
    moreover have "f (n - Suc k) = - f (Suc k)"
      using k Suc by (intro refl) simp_all
    ultimately show "f (Suc (m - Suc k)) = - f (Suc k)" by simp
  qed simp
  also have "\<dots> = - (\<Sum>k<m. f (Suc k))" by (simp add: sum_negf)
  finally have "(\<Sum>k<m. f (Suc k)) = 0" by simp
  with a show ?thesis by simp
qed

lemma sum_sin_period: "(\<Sum>k<n. sin (2 * pi * (real k / real n))) = 0"
proof (rule sum_antisymmetric)
  show "sin (2 * pi * (real 0 / real n)) = 0" by simp
next
  fix k assume "0 < k" "k < n"
  then show "sin (2 * pi * (real (n - k) / real n)) = - sin (2 * pi * (real k / real n))"
    by (intro sin_reflect) simp_all
qed

lemma sum_list_sin_period:
  "sum_list (map (\<lambda>k. sin (2 * pi * (real k / real n))) [0..<n]) = 0"
proof -
  have "sum_list (map (\<lambda>k. sin (2 * pi * (real k / real n))) [0..<n])
      = (\<Sum>k<n. sin (2 * pi * (real k / real n)))"
    by (simp add: interv_sum_list_conv_sum_set_nat atLeast0LessThan)
  then show ?thesis using sum_sin_period [of n] by simp
qed

lemma spec_Fit_linear_centred:
  assumes len: "length y = length xs" and zero: "sum_list xs = 0"
  shows "slope_of (spec_Fit_linear y (Some xs) None None None)
       = slope_of (spec_Fit_linear y (Some xs) None (Some 0) None)"
proof -
  let ?n = "length xs"
  let ?w = "replicate ?n (1::real)"
  have ws: "map (\<lambda>e. 1 / e\<^sup>2) ?w = ?w" by simp
  have S: "sum_list ?w = real ?n" by (simp add: sum_list_replicate)
  have Sx: "wsum ?w xs = 0" using len zero by (simp add: wsum_ones)
  have nz: "\<not> list_all (\<lambda>e. e = 0) ?w \<or> ?w = []" by (cases xs) simp_all
  show ?thesis
  proof (cases "?n < 2")
    case True
    with len consider "y = []" | a where "y = [a]" by (cases y; cases "tl y") auto
    then show ?thesis
    proof cases
      case 1
      then show ?thesis using len by (simp add: spec_Fit_linear_def slope_of_def)
    next
      case 2
      with len zero obtain x where "xs = [x]" "x = 0" by (cases xs) auto
      with 2 show ?thesis by (simp add: spec_Fit_linear_def slope_of_def wsum_def)
    qed
  next
    case False
    with len have n2: "\<not> ?n < 2" "\<not> ?n < 1" "?n \<noteq> 0" "y \<noteq> []" by auto
    have la: "\<not> list_all (\<lambda>e. e = 0) ?w" using n2 by (cases xs) simp_all
    show ?thesis
      using len n2 la
      by (simp add: spec_Fit_linear_def slope_of_def Let_def ws S Sx)
  qed
qed

lemma spec_Fit_linear_through_origin:
  assumes len: "length y = length xs" and nz: "sum_list (map power2 xs) \<noteq> 0"
  shows "slope_of (spec_Fit_linear y (Some xs) None (Some 0) None)
       = Inr (sum_list (map2 (*) xs y) / sum_list (map power2 xs))"
proof -
  let ?n = "length xs"
  have ne: "xs \<noteq> []" using nz by auto
  then have n1: "\<not> ?n < 1" by (cases xs) auto
  have w: "map (\<lambda>e. 1 / e\<^sup>2) (replicate ?n (1::real)) = replicate ?n 1" by simp
  have la: "\<not> list_all (\<lambda>e. e = 0) (replicate ?n (1::real))" using ne by (cases xs) simp_all
  have Sxx: "wsum (replicate ?n 1) (map power2 xs) = sum_list (map power2 xs)"
    by (simp add: wsum_ones)
  have Sxy: "wsum (replicate ?n 1) (map2 (*) xs y) = sum_list (map2 (*) xs y)"
    using len by (simp add: wsum_ones)
  show ?thesis
    using len n1 la nz ne unfolding spec_Fit_linear_def slope_of_def Let_def
    by (simp add: w Sxx Sxy)
qed

lemma sum_list_squares_pos:
  assumes "x \<in> set xs" "x \<noteq> (0::real)"
  shows "0 < sum_list (map power2 xs)"
proof -
  have "0 < x\<^sup>2" using assms(2) by simp
  moreover have "x\<^sup>2 \<le> sum_list (map power2 xs)"
    using assms(1) by (intro member_le_sum_list) auto
  ultimately show ?thesis by linarith
qed

lemma sin_first_pos: "3 \<le> n \<Longrightarrow> 0 < sin (2 * pi * (real (Suc 0) / real n))"
proof (rule sin_gt_zero)
  assume n: "3 \<le> n"
  then show "0 < 2 * pi * (real (Suc 0) / real n)" by simp
  have "2 * pi * (real (Suc 0) / real n) = pi * (2 / real n)" by simp
  also have "\<dots> < pi * 1"
    using n by (intro mult_strict_left_mono) (simp_all add: field_simps)
  finally show "2 * pi * (real (Suc 0) / real n) < pi" by simp
qed

text \<open>
  With \<open>make_surface\<close> unset, \<open>Get_Keff\<close> samples the velocity of the star at the \<open>n\<close>
  phases \<open>k / n\<close>, \<open>k = 0 .. n - 1\<close>, evenly spaced in \<open>[0, 1)\<close>, and calls \<open>Fit_linear\<close>
  with neither the intercept nor the slope fixed. The sines of a full period sum to zero,
  so in exact arithmetic the slope it returns is the slope of the fit with unit weights
  and the intercept fixed at 0. From three phases on the fit is well-posed and the slope
  is \<open>\<Sum> sin * v / \<Sum> sin^2\<close>.
\<close>

theorem Get_Keff_fixed_intercept:
  assumes grid: "pick_grid self grid = Inr g" and st: "star self = Some s"
    and K: "\<forall>k<n. Star_Keff E s (real k / real n) g = Inr (K k)"
  shows "Get_Keff (U\<lparr>Fit_linear := spec_Fit_linear\<rparr>) E self par (int n) grid False
       = slope_of (spec_Fit_linear (map K [0..<n])
           (Some (map (\<lambda>k. sin (2 * pi * (real k / real n))) [0..<n])) None (Some 0) None)
     \<and> (3 \<le> n \<longrightarrow>
          Get_Keff (U\<lparr>Fit_linear := spec_Fit_linear\<rparr>) E self par (int n) grid False
            = Inr ((\<Sum>k<n. sin (2 * pi * (real k / real n)) * K k)
                    / (\<Sum>k<n. (sin (2 * pi * (real k / real n)))\<^sup>2)))"
proof -
  let ?x = "map (\<lambda>k. sin (2 * pi * (real k / real n))) [0..<n]"
  let ?y = "map K [0..<n]"
  have ph: "map (\<lambda>k. real k / real_of_int (int n)) [0..<nat (int n)]
      = map (\<lambda>k. real k / real n) [0..<n]" by simp
  have vel: "emap (\<lambda>p. ebind (attr ''star'' (star self)) (\<lambda>s. Star_Keff E s p g))
        (map (\<lambda>k. real k / real n) [0..<n]) = Inr ?y"
  proof -
    have "emap ((\<lambda>p. ebind (attr ''star'' (star self)) (\<lambda>s. Star_Keff E s p g)) \<circ> (\<lambda>k. real k / real n))
        [0..<n] = Inr (map K [0..<n])"
      using K st by (intro emap_all_Inr) (simp add: attr_def)
    then show ?thesis by (simp add: emap_map)
  qed
  have code: "Get_Keff (U\<lparr>Fit_linear := spec_Fit_linear\<rparr>) E self par (int n) grid False
      = slope_of (spec_Fit_linear ?y (Some ?x) None None None)"
    unfolding Get_Keff_def Let_def ph
    by (simp add: grid vel slope_of_def o_def)
  have centred: "slope_of (spec_Fit_linear ?y (Some ?x) None None None)
      = slope_of (spec_Fit_linear ?y (Some ?x) None (Some 0) None)"
  proof (rule spec_Fit_linear_centred)
    show "length ?y = length ?x" by simp
    show "sum_list ?x = 0" by (rule sum_list_sin_period)
  qed
  have explicit: "slope_of (spec_Fit_linear ?y (Some ?x) None (Some 0) None)
      = Inr ((\<Sum>k<n. sin (2 * pi * (real k / real n)) * K k)
                    / (\<Sum>k<n. (sin (2 * pi * (real k / real n)))\<^sup>2))" if n: "3 \<le> n"
  proof -
    have Sxx: "sum_list (map power2 ?x) = (\<Sum>k<n. (sin (2 * pi * (real k / real n)))\<^sup>2)"
      unfolding map_map o_def
      by (rule trans [OF interv_sum_list_conv_sum_set_nat]) (simp add: atLeast0LessThan)
    have "map2 (*) ?x ?y = map (\<lambda>k. sin (2 * pi * (real k / real n)) * K k) [0..<n]"
      unfolding map2_map_map by (rule refl)
    then have Sxy: "sum_list (map2 (*) ?x ?y) = (\<Sum>k<n. sin (2 * pi * (real k / real n)) * K k)"
      by (simp only: interv_sum_list_conv_sum_set_nat set_upt atLeast0LessThan)
    have "sin (2 * pi * (real (Suc 0) / real n)) \<in> set ?x"
      unfolding set_map by (rule image_eqI [where x = "Suc 0"]) (use n in auto)
    from sum_list_squares_pos [OF this] sin_first_pos [OF n]
    have pos: "0 < sum_list (map power2 ?x)" by simp
    then have "sum_list (map power2 ?x) \<noteq> 0" by simp
    from spec_Fit_linear_through_origin [OF _ this, of ?y]
    have "slope_of (spec_Fit_linear ?y (Some ?x) None (Some 0) None)
        = Inr (sum_list (map2 (*) ?x ?y) / sum_list (map power2 ?x))" by simp
    then show ?thesis by (simp only: Sxx Sxy)
  qed
  from code centred explicit show ?thesis by simp
qed

lemma ex_init:
  "Photometry_init example_Utils example_E ''atmo.txt'' ''data.txt'' 5 True = Inr example_self"
  apply (simp add: Photometry_init_def ex_Read_data3 ex_Read_atmo3 attr_def dget_def
      Init_lightcurve_def ex_fields)
  apply (simp add: Setup_def attr_def upt_rec Setup_step_def darr_def dflt_def dget_def
      py_index_def as_arr_def as_flt_def dappend_def example_Utils_def spec_Mag_to_flux_def
      darrs_def hstack_def new_Photometry_def example_self_def example_data_def example_grids_def)
  done

lemma sin_quarters:
  "sin (2 * pi * (real 0 / real 4)) = 0" "sin (2 * pi * (real (Suc 0) / real 4)) = 1"
  "sin (2 * pi * (real 2 / real 4)) = 0" "sin (2 * pi * (real 3 / real 4)) = - 1"
proof -
  show "sin (2 * pi * (real 0 / real 4)) = 0" by simp
  show "sin (2 * pi * (real (Suc 0) / real 4)) = 1" by simp
  show "sin (2 * pi * (real 2 / real 4)) = 0" by simp
  have "2 * pi * (real 3 / real 4) = 3 / 2 * pi" by simp
  then show "sin (2 * pi * (real 3 / real 4)) = - 1" by (simp only: sin_3over2_pi)
qed

lemma sum_upto_4:
  fixes f :: "nat \<Rightarrow> real"
  shows "(\<Sum>k<4. f k) = f 0 + f (Suc 0) + f 2 + f 3"
  by (simp add: eval_nat_numeral)

theorem Get_Keff_fixed_intercept_witness:
  "Photometry_init example_Utils example_E ''atmo.txt'' ''data.txt'' 5 True = Inr example_self
   \<and> Get_Keff (example_Utils\<lparr>Fit_linear := spec_Fit_linear\<rparr>) example_E example_self
        (ParList [10, 7200, 1, 300000, 1, 9 / 10, 8 / 100, 4000, 5000]) 4 (GridIndex 0) False
      = Inr 300"
proof -
  let ?K = "\<lambda>k. 300 * sin (2 * pi * (real k / real 4)) + 7"
  have g: "pick_grid example_self (GridIndex 0) = Inr \<lparr>meta_ext = 1, meta_zp = 1, flux0 = 1, table = 0\<rparr>"
    by (simp add: pick_grid_def example_self_def example_grids_def attr_def py_index_def)
  have s: "star example_self = Some \<lparr>ndiv = 5, read_primitives = True, surface = None\<rparr>"
    by (simp add: example_self_def)
  have K: "\<forall>k<4. Star_Keff example_E \<lparr>ndiv = 5, read_primitives = True, surface = None\<rparr>
       (real k / real 4) \<lparr>meta_ext = 1, meta_zp = 1, flux0 = 1, table = 0\<rparr> = Inr (?K k)"
    by (simp add: ex_fields)
  have three: "(3::nat) \<le> 4" by simp
  have sums: "(\<Sum>k<4. sin (2 * pi * (real k / real 4)) * ?K k)
      / (\<Sum>k<4. (sin (2 * pi * (real k / real 4)))\<^sup>2) = 300"
    unfolding sum_upto_4 sin_quarters by simp
  have "Get_Keff (example_Utils\<lparr>Fit_linear := spec_Fit_linear\<rparr>) example_E example_self
        (ParList [10, 7200, 1, 300000, 1, 9 / 10, 8 / 100, 4000, 5000]) (int 4) (GridIndex 0) False
      = Inr ((\<Sum>k<4. sin (2 * pi * (real k / real 4)) * ?K k)
      / (\<Sum>k<4. (sin (2 * pi * (real k / real 4)))\<^sup>2))"
    by (rule Get_Keff_fixed_intercept [OF g s K, THEN conjunct2, rule_format, OF three])
  then have "Get_Keff (example_Utils\<lparr>Fit_linear := spec_Fit_linear\<rparr>) example_E example_self
        (ParList [10, 7200, 1, 300000, 1, 9 / 10, 8 / 100, 4000, 5000]) (int 4) (GridIndex 0) False
      = Inr 300"
    by (simp only: sums)
  then have "Get_Keff (example_Utils\<lparr>Fit_linear := spec_Fit_linear\<rparr>) example_E example_self
        (ParList [10, 7200, 1, 300000, 1, 9 / 10, 8 / 100, 4000, 5000]) 4 (GridIndex 0) False
      = Inr 300"
    by simp
  with ex_init show ?thesis by simp
qed


text \<open>
  C7. \<open>Get_Keff\<close> is to sample the velocity of the star at evenly spaced phases and to
  return the slope of the fit against \<open>sin(2 * pi * phase)\<close>. Called with \<open>make_surface\<close>
  set, as its docstring offers, it does neither: the call
  \<open>self.Make_surface(par, func_par=func_par, verbose=verbose)\<close> evaluates the name
  \<open>func_par\<close>, which is bound nowhere, and the method ends in a NameError for every
  instance, parameter vector, phase count and grid.
\<close>

theorem Get_Keff_make_surface_raises:
  "Get_Keff U E self par nphases grid True = Inl (NameError ''func_par'')"
  by (simp add: Get_Keff_def)

theorem Get_Keff_make_surface_raises_witness:
  "Get_Keff example_Utils example_E example_self
     (ParList [10, 7200, 1, 300000, 1, 9 / 10, 8 / 100, 4000, 5000]) 20 (GridIndex 0) True
   = Inl (NameError ''func_par'')"
  by (rule Get_Keff_make_surface_raises)


section \<open>The constructed instance\<close>


lemma emap_length: "emap f xs = Inr ys \<Longrightarrow> length ys = length xs"
proof (induction xs arbitrary: ys)
  case Nil
  then show ?case by simp
next
  case (Cons x xs)
  then show ?case by (auto simp: ebind_eq_Inr)
qed

lemma emap_nth: "emap f xs = Inr ys \<Longrightarrow> i < length xs \<Longrightarrow> f (xs ! i) = Inr (ys ! i)"
proof (induction xs arbitrary: ys i)
  case Nil
  then show ?case by simp
next
  case (Cons x xs)
  then show ?case by (cases i) (auto simp: ebind_eq_Inr)
qed

lemma py_index_three:
  "py_index [a, b, c] 0 = Inr a" "py_index [a, b, c] 1 = Inr b" "py_index [a, b, c] 2 = Inr c"
  by (simp_all add: py_index_def)

lemma loadtxt_columns:
  assumes "loadtxt E fln [c1, c2, c3] = Inr cols"
    and "py_index cols 0 = Inr d0" and "py_index cols 1 = Inr d1" and "py_index cols 2 = Inr d2"
  shows "length d1 = length d0 \<and> length d2 = length d0"
proof -
  from assms(1) obtain rows where rows: "tables E fln = Inr rows"
    and c: "(if rows = [] then Inr [] else emap (\<lambda>c. emap (\<lambda>row. py_index row c) rows) [c1, c2, c3]) = Inr cols"
    by (auto simp: loadtxt_def ebind_eq_Inr)
  have "rows \<noteq> []" using c assms(2) by (auto simp: py_index_def)
  with c obtain a b e where cols: "cols = [a, b, e]"
    and ea: "emap (\<lambda>row. py_index row c1) rows = Inr a"
    and eb: "emap (\<lambda>row. py_index row c2) rows = Inr b"
    and ee: "emap (\<lambda>row. py_index row c3) rows = Inr e"
    by (auto simp: ebind_eq_Inr)
  from assms(2-4) cols have "d0 = a" "d1 = b" "d2 = e" by (simp_all add: py_index_three)
  with emap_length [OF ea] emap_length [OF eb] emap_length [OF ee] show ?thesis by simp
qed

lemma dappend_Inr:
  "dappend d k v = Inr d' \<longleftrightarrow>
     (\<exists>xs x. map_of d k = Some xs \<and> v = Inr x \<and> d' = AList.update k (xs @ [x]) d)"
  by (auto simp: dappend_def ebind_eq_Inr dget_Inr)

lemma dappend_lookup:
  "dappend d k v = Inr d' \<Longrightarrow>
     \<exists>xs x. map_of d k = Some xs \<and> v = Inr x
       \<and> (\<forall>k'. map_of d' k' = (if k' = k then Some (xs @ [x]) else map_of d k'))"
  by (auto simp: dappend_Inr update_conv')

lemma read_record_wf:
  assumes rr: "read_record E d tmp ''mag'' ''err'' hs = Inr d'"
    and wf: "wf_read d mags errs phases calibs"
  shows "\<exists>m e p c. wf_read d' (mags @ [m]) (errs @ [e]) (phases @ [p]) (calibs @ [c])"
proof -
  from rr obtain c1 c2 c3 cols where
    lt: "loadtxt E (last tmp) [c1, c2, c3] = Inr cols"
    and r1: "ebind (dappend d ''phase''
              (ebind (py_index cols 0) (\<lambda>d0.
               ebind (py_float E (tmp ! 4)) (\<lambda>shift.
                 Inr (Arr (if CHR ''_'' \<in> set (tmp ! 0) then map (\<lambda>p. p - shift) d0
                           else map (\<lambda>p. frac (p - shift)) d0)))))) (\<lambda>d.
     ebind (dappend d ''mag'' (ebind (py_index cols 1) (\<lambda>d1. Inr (Arr d1)))) (\<lambda>d.
     ebind (dappend d ''err'' (ebind (py_index cols 2) (\<lambda>d2. Inr (Arr d2)))) (\<lambda>d.
     ebind (dappend d ''calib'' (ebind (py_float E (tmp ! 5)) (\<lambda>x. Inr (Flt x)))) (\<lambda>d.
     ebind (dappend d ''fln'' (Inr (Str (last tmp)))) (\<lambda>d.
     ebind (dappend d ''id'' (Inr (Str (tmp ! 0)))) (\<lambda>d.
     dappend d ''softening''
       (if hs then ebind (py_float E (tmp ! 6)) (\<lambda>x. Inr (Flt x))
        else Inr (Flt 0)))))))) = Inr d'"
    unfolding read_record_def by (auto simp: ebind_eq_Inr)
  from r1 obtain e1 where a1: "dappend d ''phase''
              (ebind (py_index cols 0) (\<lambda>d0.
               ebind (py_float E (tmp ! 4)) (\<lambda>shift.
                 Inr (Arr (if CHR ''_'' \<in> set (tmp ! 0) then map (\<lambda>p. p - shift) d0
                           else map (\<lambda>p. frac (p - shift)) d0))))) = Inr e1"
    and r2: "ebind (dappend e1 ''mag'' (ebind (py_index cols 1) (\<lambda>d1. Inr (Arr d1)))) (\<lambda>d.
     ebind (dappend d ''err'' (ebind (py_index cols 2) (\<lambda>d2. Inr (Arr d2)))) (\<lambda>d.
     ebind (dappend d ''calib'' (ebind (py_float E (tmp ! 5)) (\<lambda>x. Inr (Flt x)))) (\<lambda>d.
     ebind (dappend d ''fln'' (Inr (Str (last tmp)))) (\<lambda>d.
     ebind (dappend d ''id'' (Inr (Str (tmp ! 0)))) (\<lambda>d.
     dappend d ''softening''
       (if hs then ebind (py_float E (tmp ! 6)) (\<lambda>x. Inr (Flt x))
        else Inr (Flt 0))))))) = Inr d'"
    by (auto simp: ebind_eq_Inr)
  from r2 obtain e2 e3 e4 e5 e6 v5 v6 v7 where
    a2: "dappend e1 ''mag'' (ebind (py_index cols 1) (\<lambda>d1. Inr (Arr d1))) = Inr e2"
    and a3: "dappend e2 ''err'' (ebind (py_index cols 2) (\<lambda>d2. Inr (Arr d2))) = Inr e3"
    and a4: "dappend e3 ''calib'' (ebind (py_float E (tmp ! 5)) (\<lambda>x. Inr (Flt x))) = Inr e4"
    and a5: "dappend e4 ''fln'' v5 = Inr e5"
    and a6: "dappend e5 ''id'' v6 = Inr e6"
    and a7: "dappend e6 ''softening'' v7 = Inr d'"
    by (auto simp: ebind_eq_Inr)
  from dappend_lookup [OF a1] obtain x1 l1 where
    v1: "ebind (py_index cols 0) (\<lambda>d0.
               ebind (py_float E (tmp ! 4)) (\<lambda>shift.
                 Inr (Arr (if CHR ''_'' \<in> set (tmp ! 0) then map (\<lambda>p. p - shift) d0
                           else map (\<lambda>p. frac (p - shift)) d0)))) = Inr x1"
    and m1: "\<forall>k'. map_of e1 k' = (if k' = ''phase'' then Some (l1 @ [x1]) else map_of d k')"
    and o1: "map_of d ''phase'' = Some l1"
    by blast
  from v1 obtain d0 p where c0: "py_index cols 0 = Inr d0" and x1: "x1 = Arr p"
    and lp: "length p = length d0"
    by (auto simp: ebind_eq_Inr)
  from dappend_lookup [OF a2] obtain x2 l2 where
    v2: "ebind (py_index cols 1) (\<lambda>d1. Inr (Arr d1)) = Inr x2"
    and m2: "\<forall>k'. map_of e2 k' = (if k' = ''mag'' then Some (l2 @ [x2]) else map_of e1 k')"
    and o2: "map_of e1 ''mag'' = Some l2"
    by blast
  from v2 obtain d1 where c1: "py_index cols 1 = Inr d1" and x2: "x2 = Arr d1"
    by (auto simp: ebind_eq_Inr)
  from dappend_lookup [OF a3] obtain x3 l3 where
    v3: "ebind (py_index cols 2) (\<lambda>d2. Inr (Arr d2)) = Inr x3"
    and m3: "\<forall>k'. map_of e3 k' = (if k' = ''err'' then Some (l3 @ [x3]) else map_of e2 k')"
    and o3: "map_of e2 ''err'' = Some l3"
    by blast
  from v3 obtain d2 where c2: "py_index cols 2 = Inr d2" and x3: "x3 = Arr d2"
    by (auto simp: ebind_eq_Inr)
  from dappend_lookup [OF a4] obtain x4 l4 where
    v4: "ebind (py_float E (tmp ! 5)) (\<lambda>x. Inr (Flt x)) = Inr x4"
    and m4: "\<forall>k'. map_of e4 k' = (if k' = ''calib'' then Some (l4 @ [x4]) else map_of e3 k')"
    and o4: "map_of e3 ''calib'' = Some l4"
    by blast
  from v4 obtain cal where x4: "x4 = Flt cal" by (auto simp: ebind_eq_Inr)
  from dappend_lookup [OF a5] obtain x5 l5 where
    m5: "\<forall>k'. map_of e5 k' = (if k' = ''fln'' then Some (l5 @ [x5]) else map_of e4 k')"
    by blast
  from dappend_lookup [OF a6] obtain x6 l6 where
    m6: "\<forall>k'. map_of e6 k' = (if k' = ''id'' then Some (l6 @ [x6]) else map_of e5 k')"
    by blast
  from dappend_lookup [OF a7] obtain x7 l7 where
    m7: "\<forall>k'. map_of d' k' = (if k' = ''softening'' then Some (l7 @ [x7]) else map_of e6 k')"
    by blast
  from loadtxt_columns [OF lt c0 c1 c2] lp have len: "length d1 = length p" "length d2 = length p"
    by simp_all
  have "wf_read d' (mags @ [d1]) (errs @ [d2]) (phases @ [p]) (calibs @ [cal])"
    using wf o1 o2 o3 o4 len x1 x2 x3 x4
    by (simp add: wf_read_def m1 m2 m3 m4 m5 m6 m7)
  then show ?thesis by blast
qed


lemma Read_data_line_wf:
  assumes line: "Read_data_line E d line = Inr d'" and wf: "wf_data d"
  shows "wf_data d'"
proof -
  from wf obtain mags errs phases calibs where w: "wf_read d mags errs phases calibs"
    by (auto simp: wf_data_def)
  then have nf: "map_of d ''flux'' = None" by (simp add: wf_read_def)
  from line consider "d' = d"
    | hs where "read_record E d (split line) ''mag'' ''err'' hs = Inr d'"
    | "read_record E d (split line) ''flux'' ''flux_err'' True = Inr d'"
    unfolding Read_data_line_def Let_def
    by (auto simp: ebind_eq_Inr split: if_splits)
  then show ?thesis
  proof cases
    case 1
    with wf show ?thesis by simp
  next
    case 2
    from read_record_wf [OF this w] show ?thesis by (auto simp: wf_data_def)
  next
    case 3
    from read_record_keys [OF this] nf show ?thesis by simp
  qed
qed

lemma efold_invariant:
  assumes "efold step xs s0 = Inr s" and "P s0"
    and "\<And>s x s'. P s \<Longrightarrow> step s x = Inr s' \<Longrightarrow> P s'"
  shows "P s"
  using assms(1,2)
proof (induction xs arbitrary: s0)
  case Nil
  then show ?case by simp
next
  case (Cons x xs)
  from Cons.prems(1) obtain s1 where "step s0 x = Inr s1" "efold step xs s1 = Inr s"
    by (auto simp: ebind_eq_Inr)
  with Cons.IH [of s1] assms(3) [OF Cons.prems(2)] show ?case by blast
qed

lemma Read_data_wf:
  assumes "Read_data E self0 fln = Inr s1"
  shows "\<exists>d. data s1 = Some d \<and> wf_data d"
proof -
  from assms obtain lines d where
    f: "efold (Read_data_line E) lines empty_data = Inr d" and s1: "s1 = self0\<lparr>data := Some d\<rparr>"
    by (auto simp: Read_data_def ebind_eq_Inr)
  have "wf_read empty_data [] [] [] []" by (simp add: wf_read_def empty_data_def)
  then have "wf_data empty_data" by (auto simp: wf_data_def)
  from efold_invariant [OF f, of wf_data, OF this] Read_data_line_wf have "wf_data d" by blast
  with s1 show ?thesis by simp
qed


lemma darr_Arr:
  assumes "map_of d key = Some (map Arr xs)" and "darr d key k = Inr a"
  shows "k < length xs \<and> a = xs ! k"
proof -
  from assms obtain it where "py_index (map Arr xs) (int k) = Inr it" "as_arr it = Inr a"
    by (auto simp: darr_def dget_def ebind_eq_Inr)
  with py_index_nat_Inr [of "map Arr xs" k it] show ?thesis by (auto simp: as_arr_def)
qed

lemma Setup_step_inv:
  assumes step: "Setup_step U grids hm st k = Inr st'"
    and inv: "setup_inv mags errs phases calibs grids k st"
  shows "setup_inv mags errs phases calibs grids (Suc k) st'"
proof -
  obtain ea d grp loc where st: "st = (ea, d, grp, loc)" by (cases st) auto
  obtain ea' d' grp' loc' where st': "st' = (ea', d', grp', loc')" by (cases st') auto
  from step [unfolded st st'] obtain ph g d1 v2 v3 d2 d3 where
    ph: "darr d ''phase'' k = Inr ph"
    and g: "py_index grids (int k) = Inr g"
    and a1: "dappend d ''ext'' (Inr (Flt (meta_ext g))) = Inr d1"
    and a2: "dappend d1 ''flux'' v2 = Inr d2"
    and a3: "dappend d2 ''flux_err'' v3 = Inr d3"
    and ea': "ea' = ea @ map (\<lambda>p. p * 0 + meta_ext g) ph"
    and d': "d' = d3"
    unfolding Setup_step_def by (auto simp: ebind_eq_Inr)
  from inv st have i: "map_of d ''mag'' = Some (map Arr mags)" "map_of d ''err'' = Some (map Arr errs)"
    "map_of d ''phase'' = Some (map Arr phases)" "map_of d ''calib'' = Some (map Flt calibs)"
    "map_of d ''ext'' = Some (map (\<lambda>i. Flt (meta_ext (grids ! i))) [0..<k])"
    "ea = concat (map (\<lambda>i. replicate (length (phases ! i)) (meta_ext (grids ! i))) [0..<k])"
    by (simp_all add: setup_inv_def)
  from darr_Arr [OF i(3) ph] have k1: "k < length phases" and phk: "ph = phases ! k" by simp_all
  from py_index_nat_Inr [OF g] have k2: "k < length grids" and gk: "g = grids ! k" by simp_all
  from dappend_lookup [OF a1] i(5) have
    m1: "\<forall>k'. map_of d1 k' = (if k' = ''ext''
          then Some (map (\<lambda>i. Flt (meta_ext (grids ! i))) [0..<k] @ [Flt (meta_ext g)])
          else map_of d k')"
    by auto
  have m3: "\<And>k'. k' \<noteq> ''flux'' \<Longrightarrow> k' \<noteq> ''flux_err'' \<Longrightarrow> map_of d3 k' = map_of d1 k'"
    using dappend_other [OF a2] dappend_other [OF a3] by simp
  have "map (\<lambda>p. p * 0 + meta_ext g) ph = replicate (length (phases ! k)) (meta_ext (grids ! k))"
    using phk gk by (simp add: map_replicate_const)
  with ea' i(6) have ea2: "ea' = concat (map (\<lambda>i. replicate (length (phases ! i)) (meta_ext (grids ! i))) [0..<Suc k])"
    by simp
  show ?thesis
    unfolding st' setup_inv_def
    using i k1 k2 gk ea2 by (simp add: d' m3 m1)
qed

lemma Setup_loop_inv:
  assumes loop: "efold (Setup_step U grids hm) [0..<k] st0 = Inr st"
    and inv: "setup_inv mags errs phases calibs grids 0 st0"
  shows "setup_inv mags errs phases calibs grids k st"
  using loop
proof (induction k arbitrary: st)
  case 0
  with inv show ?case by simp
next
  case (Suc k)
  from Suc.prems obtain st1 where
    pre: "efold (Setup_step U grids hm) [0..<k] st0 = Inr st1"
    and last: "Setup_step U grids hm st1 k = Inr st"
    by (auto simp: efold_snoc ebind_eq_Inr)
  from Setup_step_inv [OF last Suc.IH [OF pre]] show ?case .
qed


lemma emap_as_arr: "emap as_arr (map Arr xs) = Inr xs"
  by (induction xs) (simp_all add: as_arr_def)

lemma emap_as_flt: "emap as_flt (map Flt xs) = Inr xs"
  by (induction xs) (simp_all add: as_flt_def)

lemma hstack_Inr: "hstack xss = Inr v \<longleftrightarrow> xss \<noteq> [] \<and> v = concat xss"
  by (auto simp: hstack_def)

lemma Setup_constructed:
  assumes su: "Setup U s = Inr self"
    and s: "data s = Some d0" "ndataset s = Some n" "atmo_grid s = Some grids" "star s \<noteq> None"
    and wf: "wf_read d0 mags errs phases calibs" and len: "length grids = n" "length phases = n"
  shows "\<exists>d. constructed self n d grids mags errs phases calibs"
proof -
  let ?d1 = "AList.update ''ext'' [] d0"
  let ?dinit = "AList.update ''flux_err'' [] (AList.update ''flux'' [] ?d1)"
  have hm: "map_of ?d1 ''mag'' \<noteq> None" using wf by (simp add: wf_read_def update_conv')
  from su s hm obtain ea d grp loc ms es M Er where
    loop: "efold (Setup_step U grids True) [0..<n] ([], ?dinit, [0..<n], None) = Inr (ea, d, grp, loc)"
    and ms: "darrs d ''mag'' = Inr ms" "hstack ms = Inr M"
    and es: "darrs d ''err'' = Inr es" "hstack es = Inr Er"
    and self: "self = s\<lparr>data := Some d, ext := Some ea, grouping := Some grp,
                 mag := Some M, err := Some Er, phase := phase self,
                 flux := flux self, flux_err := flux_err self, ndata := ndata self\<rparr>"
    unfolding Setup_def Let_def
    by (auto simp: ebind_eq_Inr attr_Inr)
  have "setup_inv mags errs phases calibs grids 0 ([], ?dinit, [0..<n], None)"
    using wf by (simp add: setup_inv_def wf_read_def update_conv')
  from Setup_loop_inv [OF loop this] len have
    i: "map_of d ''mag'' = Some (map Arr mags)" "map_of d ''err'' = Some (map Arr errs)"
    "map_of d ''phase'' = Some (map Arr phases)" "map_of d ''calib'' = Some (map Flt calibs)"
    "map_of d ''ext'' = Some (map (\<lambda>i. Flt (meta_ext (grids ! i))) [0..<n])"
    "ea = concat (map (\<lambda>i. replicate (length (phases ! i)) (meta_ext (grids ! i))) [0..<n])"
    by (simp_all add: setup_inv_def)
  have "map (\<lambda>i. Flt (meta_ext (grids ! i))) [0..<n] = map Flt (map meta_ext grids)"
    using len(1) by (simp add: list_eq_iff_nth_eq)
  with i(5) have ext: "map_of d ''ext'' = Some (map Flt (map meta_ext grids))" by simp
  from ms i(1) have "ms = mags" by (simp add: darrs_def dget_def emap_as_arr)
  with ms(2) have M: "mags \<noteq> []" "M = concat mags" by (simp_all add: hstack_Inr)
  from es i(2) have "es = errs" by (simp add: darrs_def dget_def emap_as_arr)
  with es(2) have Er: "Er = concat errs" by (simp add: hstack_Inr)
  have lm: "length mags = n" using wf len(2) by (metis wf_read_def length_map)
  with M have "0 < n" by auto
  moreover have "length calibs = n" using wf len(2) by (simp add: wf_read_def)
  moreover have "ndataset self = Some n" "data self = Some d" "atmo_grid self = Some grids"
    "star self \<noteq> None" "mag self = Some M" "err self = Some Er" "ext self = Some ea"
    using s by (subst self, simp)+
  ultimately have "constructed self n d grids mags errs phases calibs"
    using wf len i ext M Er by (simp add: constructed_def wf_read_def)
  then show ?thesis by blast
qed

lemma init_constructed:
  assumes init: "Photometry_init U E atmo_fln data_fln nd rd = Inr self"
    and n: "ndataset self = Some n"
  shows "\<exists>d grids mags errs phases calibs. constructed self n d grids mags errs phases calibs"
proof -
  from init obtain s1 s2 d0 and grids :: "AtmoGridPhot list" and mags0 :: "item list" where
    r1: "Read_data E new_Photometry data_fln = Inr s1"
    and r2: "Read_atmo E s1 atmo_fln = Inr s2"
    and g: "atmo_grid s2 = Some grids" and d0: "data s2 = Some d0"
    and m0: "map_of d0 ''mag'' = Some mags0"
    and rest: "(if length grids \<noteq> length mags0 then Inr s2
         else ebind (Init_lightcurve E (s2\<lparr>ndataset := Some (length grids)\<rparr>) nd rd) (Setup U))
        = Inr self"
    unfolding Photometry_init_def by (auto simp: ebind_eq_Inr attr_Inr dget_Inr)
  have none: "ndataset s2 = None" using Read_data_attrs [OF r1] Read_atmo_attrs [OF r2] by simp
  with rest n have eq: "length grids = length mags0" by (auto split: if_splits)
  with rest obtain st where
    su: "Setup U (s2\<lparr>ndataset := Some (length grids), star := Some st\<rparr>) = Inr self"
    by (auto simp: Init_lightcurve_def ebind_eq_Inr)
  from Read_data_wf [OF r1] Read_atmo_attrs [OF r2] d0 have "wf_data d0" by auto
  then obtain mags errs phases calibs where wf: "wf_read d0 mags errs phases calibs"
    by (auto simp: wf_data_def)
  with m0 have "mags0 = map Arr mags" by (simp add: wf_read_def)
  with eq have lg: "length grids = length mags" by simp
  have lp: "length phases = length mags" using wf by (metis wf_read_def length_map)
  from Setup_constructed [OF su, of d0 "length grids" grids mags errs phases calibs] d0 g wf lg lp
  obtain d where c: "constructed self (length grids) d grids mags errs phases calibs" by auto
  then have "ndataset self = Some (length grids)" by (simp add: constructed_def)
  with n have "length grids = n" by simp
  with c have "constructed self n d grids mags errs phases calibs" by simp
  then show ?thesis by blast
qed


section \<open>Calc\_chi2 with fixed nuisance parameters\<close>


lemma chi_square_fixed:
  assumes "length X = length M" "length Er = length M" "length p = length M"
  shows "chi_square (map (\<lambda>e. 1 / e\<^sup>2) Er) X (map2 (-) M p) 0 0
       = (\<Sum>k<length M. ((M ! k - p ! k) / Er ! k)\<^sup>2)"
proof -
  let ?ts = "map2 (*) (map (\<lambda>e. 1 / e\<^sup>2) Er) (map2 (\<lambda>xi yi. (yi - (0 * xi + 0))\<^sup>2) X (map2 (-) M p))"
  have len: "length ?ts = length M" using assms by simp
  have "sum_list ?ts = (\<Sum>k = 0..<length ?ts. ?ts ! k)" by (rule sum_list_sum_nth)
  also have "\<dots> = (\<Sum>k = 0..<length M. ((M ! k - p ! k) / Er ! k)\<^sup>2)"
    unfolding len
  proof (rule sum.cong)
    fix k assume "k \<in> {0..<length M}"
    then have "k < length M" by simp
    then show "?ts ! k = ((M ! k - p ! k) / Er ! k)\<^sup>2"
      using assms by (simp add: power_divide)
  qed simp
  finally show ?thesis by (simp add: chi_square_def wsum_def atLeast0LessThan)
qed

lemma constructed_lengths:
  assumes "constructed self n d grids mags errs phases calibs"
  shows "length (concat errs) = length (concat mags)"
    and "length (concat (map (\<lambda>i. replicate (length (phases ! i)) (meta_ext (grids ! i))) [0..<n]))
         = length (concat mags)"
proof -
  from assms have ml: "map length mags = map length phases" and el: "map length errs = map length phases"
    and lp: "length phases = n"
    by (simp_all add: constructed_def)
  show "length (concat errs) = length (concat mags)"
    using ml el by (simp add: length_concat)
  have "map (\<lambda>i. length (phases ! i)) [0..<n] = map length phases"
    using lp by (simp add: list_eq_iff_nth_eq)
  then show "length (concat (map (\<lambda>i. replicate (length (phases ! i)) (meta_ext (grids ! i))) [0..<n]))
         = length (concat mags)"
    using ml by (simp add: length_concat o_def)
qed

text \<open>
  C2. On a constructed instance, with the linear fit of the specification, \<open>Calc_chi2\<close> with
  \<open>offset_free = 0\<close>, \<open>DM = 0\<close> and \<open>AV = 0\<close> returns the sum over all observations of
  \<open>((observed - predicted) / error)^2\<close>, where the predicted magnitudes are what
  \<open>Get_flux\<close> returns flattened, one for each observation, and no error is zero. Nothing
  is added for the bands.
\<close>

theorem Calc_chi2_fixed:
  assumes init: "Photometry_init (U\<lparr>Fit_linear := spec_Fit_linear\<rparr>) E atmo_fln data_fln nd rd = Inr self"
    and n: "ndataset self = Some n"
    and M: "mag self = Some M" and Er: "err self = Some Er"
    and pred: "Get_flux (U\<lparr>Fit_linear := spec_Fit_linear\<rparr>) E self par True (Some 0) (Some 0) nsamples
                 = Inr (Flat p)"
    and lenp: "length p = length M"
    and nz: "0 \<notin> set Er"
  shows "\<exists>x. Calc_chi2 (U\<lparr>Fit_linear := spec_Fit_linear\<rparr>) E self par 0 (Some 0) (Some 0) nsamples
               influx full_output
             = Inr ((\<Sum>k<length M. ((M ! k - p ! k) / Er ! k)\<^sup>2), x)"
proof -
  from init_constructed [OF init n] obtain d grids mags errs phases calibs where
    c: "constructed self n d grids mags errs phases calibs" by blast
  let ?X = "concat (map (\<lambda>i. replicate (length (phases ! i)) (meta_ext (grids ! i))) [0..<n])"
  from c M Er have X: "ext self = Some ?X" and Mc: "M = concat mags" and Ec: "Er = concat errs"
    by (simp_all add: constructed_def)
  from constructed_lengths [OF c] Mc Ec have lE: "length Er = length M" and lX: "length ?X = length M"
    by simp_all
  have diff: "np_sub M p = Inr (map2 (-) M p)"
    using lenp by (simp add: np_sub_def np_binop_same)
  have fit: "spec_Fit_linear (map2 (-) M p) (Some ?X) (Some Er) (Some 0) (Some 0)
      = Inr (0, 0, \<Sum>k<length M. ((M ! k - p ! k) / Er ! k)\<^sup>2)"
  proof -
    have "\<not> list_all (\<lambda>e. e = 0) Er \<or> Er = []"
      using nz by (cases Er) auto
    then show ?thesis
      using lenp lE lX nz chi_square_fixed [OF lX lE lenp]
      unfolding spec_Fit_linear_def Let_def by auto
  qed
  have num: "np_sub (map2 (-) M p) (map (\<lambda>x. 0) ?X) = Inr (map2 (-) (map2 (-) M p) (map (\<lambda>x. 0) ?X))"
    using lenp lX by (simp add: np_sub_def np_binop_same)
  have res: "np_div (map2 (-) (map2 (-) M p) (map (\<lambda>x. 0) ?X)) Er
      = Inr (map2 (/) (map2 (-) (map2 (-) M p) (map (\<lambda>x. 0) ?X)) Er)"
    using lenp lX lE nz by (simp add: np_div_def np_binop_same)
  show ?thesis
    unfolding Calc_chi2_def
    by (simp add: pred attr_def M Er X n diff fit num res Let_def)
qed


lemma ex_Utils_fit: "example_Utils\<lparr>Fit_linear := spec_Fit_linear\<rparr> = example_Utils"
  by (simp add: example_Utils_def)

lemma ex_Make_surface:
  "Make_surface example_E example_self example_par
     = Inr (example_self\<lparr>star := Some \<lparr>ndiv = 5, read_primitives = True,
          surface = Some [10, 7200, 1, 300000, 1, 9 / 10, 8 / 100, 4000, 5000]\<rparr>\<rparr>)"
  by (simp add: Make_surface_def example_self_def attr_def par_values_def example_par_def
      py_index_def ex_fields)

lemma ex_Get_flux_observed:
  "Get_flux example_Utils example_E example_self example_par True (Some 0) (Some 0) None
     = Inr (Flat [81 / 4, 83 / 4, 81 / 4, 83 / 4, 85 / 4, 87 / 4])"
  unfolding Get_flux_def ex_Make_surface
  by (simp add: example_self_def example_data_def example_grids_def attr_def darrs_def dflts_def
      dget_def as_arr_def as_flt_def upt_rec Get_flux_step_def Mag_flux_curve_def py_index_def
      ex_fields hstack_def)

theorem Calc_chi2_fixed_witness:
  "Photometry_init (example_Utils\<lparr>Fit_linear := spec_Fit_linear\<rparr>) example_E
       ''atmo.txt'' ''data.txt'' 5 True = Inr example_self
   \<and> (\<exists>x. Calc_chi2 (example_Utils\<lparr>Fit_linear := spec_Fit_linear\<rparr>) example_E example_self
              example_par 0 (Some 0) (Some 0) None False False = Inr (475 / 2, x))"
proof -
  let ?M = "[20, 21, 20, 21, 20, 21] :: real list"
  let ?Er = "[1 / 10, 1 / 10, 1 / 10, 1 / 10, 1 / 10, 1 / 10] :: real list"
  let ?p = "[81 / 4, 83 / 4, 81 / 4, 83 / 4, 85 / 4, 87 / 4] :: real list"
  have init: "Photometry_init (example_Utils\<lparr>Fit_linear := spec_Fit_linear\<rparr>) example_E
       ''atmo.txt'' ''data.txt'' 5 True = Inr example_self"
    by (simp only: ex_Utils_fit ex_init)
  have n: "ndataset example_self = Some 3" and M: "mag example_self = Some ?M"
    and Er: "err example_self = Some ?Er"
    by (simp_all add: example_self_def)
  have pred: "Get_flux (example_Utils\<lparr>Fit_linear := spec_Fit_linear\<rparr>) example_E example_self
      example_par True (Some 0) (Some 0) None = Inr (Flat ?p)"
    by (simp only: ex_Utils_fit ex_Get_flux_observed)
  have len: "length ?p = length ?M" by simp
  have nz: "0 \<notin> set ?Er" by simp
  have val: "(\<Sum>k<length ?M. ((?M ! k - ?p ! k) / ?Er ! k)\<^sup>2) = 475 / 2"
    by (simp add: eval_nat_numeral power2_eq_square)
  from Calc_chi2_fixed [OF init n M Er pred len nz, of False False]
  have "\<exists>x. Calc_chi2 (example_Utils\<lparr>Fit_linear := spec_Fit_linear\<rparr>) example_E example_self
              example_par 0 (Some 0) (Some 0) None False False = Inr (475 / 2, x)"
    by (simp only: val)
  with init show ?thesis by simp
qed


section \<open>Calc\_chi2 with free offsets\<close>


lemma Make_surface_attrs:
  "Make_surface E self par = Inr self' \<Longrightarrow>
     data self' = data self \<and> ndataset self' = ndataset self \<and> atmo_grid self' = atmo_grid self
     \<and> grouping self' = grouping self \<and> star self' \<noteq> None"
  by (auto simp: Make_surface_def ebind_eq_Inr)






lemma dflts_Flt: "map_of d key = Some (map Flt xs) \<Longrightarrow> dflts d key = Inr xs"
  by (simp add: dflts_def dget_def emap_as_flt)












lemma all_less_3: "(\<forall>i<3::nat. P i) \<longleftrightarrow> P 0 \<and> P 1 \<and> P 2"
  by (auto simp: less_Suc_eq numeral_3_eq_3 numeral_2_eq_2)



section \<open>Get\_flux and the copied datasets\<close>


lemma emap_snoc:
  "emap f (xs @ [x]) = ebind (emap f xs) (\<lambda>vs. ebind (f x) (\<lambda>v. Inr (vs @ [v])))"
  by (induction xs) (simp_all add: ebind_def split: sum.splits)

lemma recompute_loop:
  "efold (\<lambda>fl i. ebind (curve i) (\<lambda>c. Inr (fl @ [c]))) [0..<k] [] = emap curve [0..<k]"
proof (induction k)
  case 0
  then show ?case by simp
next
  case (Suc k)
  then show ?case by (simp add: efold_snoc emap_snoc)
qed

lemma copy_loop:
  assumes grp: "grouping self = Some grp" and len: "length grp = n"
    and le: "\<forall>i<n. grp ! i \<le> i"
    and same: "\<forall>i<n. Mag_flux_curve E self phases offsets (grp ! i)
                      = Mag_flux_curve E self phases offsets i"
    and k: "k \<le> n"
  shows "efold (Get_flux_step E self (Some ns) phases offsets) [0..<k] []
       = emap (Mag_flux_curve E self phases offsets) [0..<k]"
  using k
proof (induction k)
  case 0
  then show ?case by simp
next
  case (Suc k)
  let ?curve = "Mag_flux_curve E self phases offsets"
  from Suc have IH: "efold (Get_flux_step E self (Some ns) phases offsets) [0..<k] []
      = emap ?curve [0..<k]" and kn: "k < n" by simp_all
  show ?case
  proof (cases "emap ?curve [0..<k]")
    case (Inl e)
    with IH show ?thesis by (simp add: efold_snoc emap_snoc)
  next
    case (Inr fl)
    from emap_length [OF Inr] have lf: "length fl = k" by simp
    have gk: "py_index grp (int k) = Inr (grp ! k)" using kn len by (simp add: py_index_nat)
    have step: "Get_flux_step E self (Some ns) phases offsets fl k
        = ebind (?curve k) (\<lambda>c. Inr (fl @ [c]))"
    proof (cases "grp ! k < k")
      case True
      then have "py_index fl (int (grp ! k)) = Inr (fl ! (grp ! k))"
        using lf by (simp add: py_index_nat)
      moreover have "?curve (grp ! k) = Inr (fl ! (grp ! k))"
        using emap_nth [OF Inr, of "grp ! k"] True by simp
      with same kn have "?curve k = Inr (fl ! (grp ! k))" by simp
      ultimately show ?thesis
        using True by (simp add: Get_flux_step_def grp attr_def gk)
    next
      case False
      then show ?thesis by (simp add: Get_flux_step_def grp attr_def gk)
    qed
    show ?thesis
      by (simp add: efold_snoc emap_snoc IH Inr step)
  qed
qed

lemma Read_data_has_id:
  assumes "Read_data E self0 fln = Inr s1"
  shows "\<exists>d ids. data s1 = Some d \<and> map_of d ''id'' = Some ids"
proof -
  from assms obtain lines d where
    f: "efold (Read_data_line E) lines empty_data = Inr d" and s1: "s1 = self0\<lparr>data := Some d\<rparr>"
    by (auto simp: Read_data_def ebind_eq_Inr)
  have "map_of d ''id'' \<noteq> None"
  proof (rule efold_invariant [OF f, of "\<lambda>d. map_of d ''id'' \<noteq> None"])
    show "map_of empty_data ''id'' \<noteq> None" by (simp add: empty_data_def)
  next
    fix s x s' assume "map_of s ''id'' \<noteq> None" "Read_data_line E s x = Inr s'"
    then show "map_of s' ''id'' \<noteq> None" using Read_data_line_keys [of E s x s'] by simp
  qed
  with s1 show ?thesis by auto
qed

lemma init_ids:
  assumes init: "Photometry_init U E atmo_fln data_fln nd rd = Inr self"
    and n: "ndataset self = Some n" and d: "data self = Some d"
  shows "\<exists>ids. map_of d ''id'' = Some ids"
proof -
  from init obtain s1 s2 and grids :: "AtmoGridPhot list" and mags :: "item list" where
    r1: "Read_data E new_Photometry data_fln = Inr s1"
    and r2: "Read_atmo E s1 atmo_fln = Inr s2"
    and rest: "(if length grids \<noteq> length mags then Inr s2
         else ebind (Init_lightcurve E (s2\<lparr>ndataset := Some (length grids)\<rparr>) nd rd) (Setup U))
        = Inr self"
    unfolding Photometry_init_def by (auto simp: ebind_eq_Inr)
  have none: "ndataset s2 = None" using Read_data_attrs [OF r1] Read_atmo_attrs [OF r2] by simp
  with rest n obtain st where
    s3: "Setup U (s2\<lparr>ndataset := Some (length grids), star := Some st\<rparr>) = Inr self"
    by (auto simp: Init_lightcurve_def ebind_eq_Inr split: if_splits)
  from Read_data_has_id [OF r1] Read_atmo_attrs [OF r2] obtain d0 ids0 where
    d0: "data s2 = Some d0" "map_of d0 ''id'' = Some ids0" by auto
  from Setup_Inr [OF s3] d0 obtain m grids' ea d' grp loc dinit hm where
    a: "map_of dinit ''id'' = map_of d0 ''id''"
    and loop: "efold (Setup_step U grids' hm) [0..<m] ([], dinit, [0..<m], None)
             = Inr (ea, d', grp, loc)"
    and self: "data self = Some d'"
    by auto
  from a d0 have "map_of dinit ''id'' = Some ids0" by simp
  from Setup_loop_grouped [OF le_refl this loop] self d show ?thesis by simp
qed

lemma Mag_flux_curve_same:
  assumes grids: "atmo_grid self = Some grids" and lg: "length grids = n"
    and i: "i < n" and j: "j < n" and g: "grids ! j = grids ! i"
  shows "Mag_flux_curve E self (replicate n ph) (map (\<lambda>e. e * a + b) (map meta_ext grids)) j
       = Mag_flux_curve E self (replicate n ph) (map (\<lambda>e. e * a + b) (map meta_ext grids)) i"
  using assms by (simp add: Mag_flux_curve_def py_index_nat attr_def)

text \<open>
  C5, as amended. On a constructed instance in which the atmosphere grid of every dataset
  is the atmosphere grid of the first dataset of its group, \<open>Get_flux\<close> returns what the
  computation of every dataset from the star returns, for every sample count, every \<open>DM\<close>
  and \<open>AV\<close>, flat or not. When a sample count is set and \<open>grouping[i] < i\<close>, the first
  loop appends to the curves computed so far the curve of dataset \<open>grouping[i]\<close> as it is.
\<close>

theorem Get_flux_copies:
  assumes init: "Photometry_init U E atmo_fln data_fln nd rd = Inr self"
    and n: "ndataset self = Some n"
    and grp: "grouping self = Some grp" and grids: "atmo_grid self = Some grids"
    and band: "\<forall>i<n. grids ! (grp ! i) = grids ! i"
  shows "Get_flux U E self par flat DM AV nsamples
           = Get_flux_recompute U E self par flat DM AV nsamples
       \<and> (\<forall>i<n. grp ! i < i \<longrightarrow>
            (\<forall>st ns phases offsets fl. length fl = i \<longrightarrow>
               Get_flux_step E (self\<lparr>star := st\<rparr>) (Some ns) phases offsets fl i
                 = Inr (fl @ [fl ! (grp ! i)])))"
proof -
  from init_constructed [OF init n] obtain d grids' mags errs phases calibs where
    c: "constructed self n d grids' mags errs phases calibs" by blast
  with grids have gg: "grids' = grids" by (simp add: constructed_def)
  from c gg have d: "data self = Some d" and lg: "length grids = n"
    and dext: "map_of d ''ext'' = Some (map Flt (map meta_ext grids))"
    by (simp_all add: constructed_def del: map_map)
  from init_ids [OF init n d] obtain ids where ids: "map_of d ''id'' = Some ids" by blast
  from init_grouping_aux [OF init n d ids] grp have lgrp: "length grp = n"
    and le: "\<forall>i<n. grp ! i \<le> i" by auto
  have copies: "Get_flux_step E (self\<lparr>star := st\<rparr>) (Some ns) ph offs fl i
      = Inr (fl @ [fl ! (grp ! i)])"
    if "i < n" "grp ! i < i" "length fl = i" for st ns ph offs fl i
    using that lgrp grp by (simp add: Get_flux_step_def attr_def py_index_nat)
  have eq: "Get_flux U E self par flat DM AV nsamples
           = Get_flux_recompute U E self par flat DM AV nsamples"
  proof (cases "Make_surface E self par")
    case (Inl e)
    then show ?thesis by (simp add: Get_flux_def Get_flux_recompute_def)
  next
    case (Inr self')
    from Make_surface_attrs [OF Inr] d n grp grids have
      s': "data self' = Some d" "ndataset self' = Some n" "grouping self' = Some grp"
      "atmo_grid self' = Some grids" by simp_all
    have exts: "dflts d ''ext'' = Inr (map meta_ext grids)"
      using dext by (rule dflts_Flt)
    show ?thesis
    proof (cases nsamples)
      case None
      have "Get_flux_step E self' None ph offs
          = (\<lambda>fl i. ebind (Mag_flux_curve E self' ph offs i) (\<lambda>c. Inr (fl @ [c])))" for ph offs
        by (intro ext) (simp add: Get_flux_step_def)
      with None show ?thesis
        by (simp add: Get_flux_def Get_flux_recompute_def Inr)
    next
      case (Some ns)
      let ?ph = "replicate n (map (\<lambda>k. real k / real ns) [0..<ns])"
      let ?DM = "case DM of None \<Rightarrow> 0 | Some v \<Rightarrow> v"
      let ?AV = "case AV of None \<Rightarrow> 0 | Some v \<Rightarrow> v"
      let ?offs = "map (\<lambda>e. e * ?AV + ?DM) (map meta_ext grids)"
      have same: "\<forall>i<n. Mag_flux_curve E self' ?ph ?offs (grp ! i)
                      = Mag_flux_curve E self' ?ph ?offs i"
      proof (intro allI impI)
        fix i assume i: "i < n"
        with le have j: "grp ! i < n" by (meson le_less_trans)
        from band i have "grids ! (grp ! i) = grids ! i" by simp
        from Mag_flux_curve_same [OF s'(4) lg i j this]
        show "Mag_flux_curve E self' ?ph ?offs (grp ! i) = Mag_flux_curve E self' ?ph ?offs i" .
      qed
      have loops: "efold (Get_flux_step E self' (Some ns) ?ph ?offs) [0..<n] []
          = efold (\<lambda>fl i. ebind (Mag_flux_curve E self' ?ph ?offs i) (\<lambda>c. Inr (fl @ [c])))
              [0..<n] []"
        using copy_loop [OF s'(3) lgrp le same le_refl] by (simp add: recompute_loop)
      show ?thesis
        unfolding Get_flux_def Get_flux_recompute_def Inr Some Let_def
        by (simp add: s' attr_def exts loops del: map_map)
    qed
  qed
  from eq copies show ?thesis by blast
qed


lemma ex_bracket:
  "bracket [0, 1 / 2] (1 / 4) = 0" "bracket [0, 1 / 2] (3 / 4) = 0"
  by (simp_all add: bracket_def)

lemma ex_axispos:
  "spec_Getaxispos_vector [0, 1 / 2] [1 / 4, 3 / 4] = Inr ([1 / 2, 3 / 2], [0, 0])"
  by (simp add: spec_Getaxispos_vector_def ex_bracket sdiv_def)

lemma ex_interp:
  "interp_at [a, b] [1 / 2, 3 / 2] [0, 0] = Inr [a * (1 / 2) + b * (1 / 2), a * (- (1 / 2)) + b * (3 / 2)]"
  by (simp add: interp_at_def np_take_def py_index_def np_mul_def np_add_def np_binop_same)

lemmas ex_flux_eval = attr_def darrs_def dflts_def darr_def dget_def as_arr_def as_flt_def upt_rec
  Get_flux_step_def Get_flux_interp_def Mag_flux_curve_def py_index_def ex_fields
  example_Utils_def ex_axispos ex_interp

lemma ex_Get_flux_recompute_sampled:
  "Get_flux_recompute example_Utils example_E example_self example_par False (Some 1) (Some (1 / 2))
       (Some 2)
     = Inr (PerSet [[87 / 4, 89 / 4], [87 / 4, 89 / 4], [93 / 4, 95 / 4]])"
  unfolding Get_flux_recompute_def ex_Make_surface
  by (simp add: example_self_def example_data_def example_grids_def ex_flux_eval)

theorem Get_flux_copies_witness:
  "Photometry_init example_Utils example_E ''atmo.txt'' ''data.txt'' 5 True = Inr example_self
   \<and> grouping example_self = Some [0, 0, 2]
   \<and> Get_flux example_Utils example_E example_self example_par False (Some 1) (Some (1 / 2)) (Some 2)
       = Get_flux_recompute example_Utils example_E example_self example_par False (Some 1)
           (Some (1 / 2)) (Some 2)
   \<and> Get_flux example_Utils example_E example_self example_par False (Some 1) (Some (1 / 2)) (Some 2)
       = Inr (PerSet [[87 / 4, 89 / 4], [87 / 4, 89 / 4], [93 / 4, 95 / 4]])"
proof -
  have n: "ndataset example_self = Some 3" and grp: "grouping example_self = Some [0, 0, 2]"
    and grids: "atmo_grid example_self = Some example_grids"
    by (simp_all add: example_self_def)
  have band: "\<forall>i<3. example_grids ! ([0, 0, 2] ! i) = example_grids ! i"
    by (simp add: all_less_3 example_grids_def)
  from Get_flux_copies [OF ex_init n grp grids band, of example_par False "Some 1" "Some (1 / 2)" "Some 2"]
  have eq: "Get_flux example_Utils example_E example_self example_par False (Some 1) (Some (1 / 2)) (Some 2)
       = Get_flux_recompute example_Utils example_E example_self example_par False (Some 1)
           (Some (1 / 2)) (Some 2)"
    by (rule conjunct1)
  with ex_init grp ex_Get_flux_recompute_sampled show ?thesis by simp
qed

text \<open>The claim as stated fails: the ids come from the data file and the atmosphere grids from
  the atmosphere file, and nothing makes two datasets of one id share a grid. With the ids
  V, V and the grids of V and B, the copy gives dataset 1 the magnitudes of the grid of V,
  and its own grid gives others.\<close>

theorem Get_flux_copies_counterexample:
  "\<exists>self. Photometry_init example_Utils
              (example_Env [record_line ''V'', record_line ''V''] [grid_line ''V'', grid_line ''B''])
              ''atmo.txt'' ''data.txt'' 5 True = Inr self
     \<and> grouping self = Some [0, 0]
     \<and> Get_flux example_Utils
          (example_Env [record_line ''V'', record_line ''V''] [grid_line ''V'', grid_line ''B''])
          self example_par False (Some 0) (Some 0) (Some 2)
        = Inr (PerSet [[81 / 4, 83 / 4], [81 / 4, 83 / 4]])
     \<and> Get_flux_recompute example_Utils
          (example_Env [record_line ''V'', record_line ''V''] [grid_line ''V'', grid_line ''B''])
          self example_par False (Some 0) (Some 0) (Some 2)
        = Inr (PerSet [[81 / 4, 83 / 4], [85 / 4, 87 / 4]])"
  apply (simp add: Photometry_init_def ex_eval attr_def Init_lightcurve_def)
  apply (simp add: Setup_def attr_def upt_rec Setup_step_def darr_def dflt_def dget_def
      py_index_def as_arr_def as_flt_def dappend_def example_Utils_def spec_Mag_to_flux_def
      darrs_def hstack_def new_Photometry_def)
  apply (simp add: Get_flux_def Get_flux_recompute_def Make_surface_def par_values_def
      example_par_def ex_flux_eval)
  done

end
